theory Spec2Isabelle
  imports Complex_Main
begin

section \<open>Parametric interpolation (src/ma/maSnap.cc)\<close>

subsection \<open>The arithmetic of \<^verbatim>\<open>double\<close>\<close>

text \<open>
  \<^verbatim>\<open>interpolateParametricCoordinate\<close> computes on \<^verbatim>\<open>double\<close>, the binary64 format of
  IEEE 754. A finite double is modelled by an integer significand \<open>m\<close> and an exponent \<open>e\<close>
  and stands for \<open>m * 2 ^ e\<close>; the operations return it in the form of the format, with
  \<open>\<bar>m\<bar> < 2 ^ 53\<close>, \<open>- 1074 \<le> e \<le> 971\<close>, and \<open>2 ^ 52 \<le> \<bar>m\<bar>\<close> unless \<open>e = - 1074\<close>; zero
  is \<open>Finite 0 0\<close>. The two infinities (the flag is the sign bit) and NaN are values of their
  own. The sign of a zero is not kept: no comparison depends on it.

  Every operation computes its exact result, a dyadic rational, and rounds it to the
  nearest double, ties to the even significand; a result beyond the largest finite double
  is infinite. Each operation of an expression is rounded on its own, as the compiler
  does without fused multiply-add and without extended precision.
\<close>

datatype double = Finite int int | Infinity bool | NaN

text \<open>The number of binary digits of a natural number.\<close>

fun bitlen_nat :: "nat \<Rightarrow> nat" where
  "bitlen_nat n = (if n = 0 then 0 else Suc (bitlen_nat (n div 2)))"

declare bitlen_nat.simps [simp del]

text \<open>\<open>m / 2 ^ s\<close> rounded to the nearest integer, a tie to the even one.\<close>

definition round_half_even :: "int \<Rightarrow> nat \<Rightarrow> int" where
  "round_half_even m s =
     (let q = m div 2 ^ s; r = 2 * (m mod 2 ^ s)
      in if r < 2 ^ s then q else if 2 ^ s < r then q + 1 else if even q then q else q + 1)"

text \<open>
  The double nearest to \<open>m * 2 ^ e\<close>. The value lies below \<open>2 ^ top\<close> in magnitude, so the
  last digit that a double keeps has the weight \<open>2 ^ q\<close>; rounding can carry into one more
  digit.
\<close>

definition round_double :: "int \<Rightarrow> int \<Rightarrow> double" where
  "round_double m e =
     (if m = 0 then Finite 0 0
      else
        let top = int (bitlen_nat (nat \<bar>m\<bar>)) + e;
            q = max (top - 53) (- 1074);
            n = (if q \<le> e then m * 2 ^ nat (e - q) else round_half_even m (nat (q - e)));
            carry = (\<bar>n\<bar> = 2 ^ 53);
            n' = (if carry then n div 2 else n);
            q' = (if carry then q + 1 else q)
        in if n' = 0 then Finite 0 0
           else if 971 < q' then Infinity (m < 0)
           else Finite n' q')"

text \<open>The conversion of an \<^verbatim>\<open>int\<close> literal, as of the \<^verbatim>\<open>1\<close> in \<^verbatim>\<open>1-t\<close>.\<close>

definition double_of_int :: "int \<Rightarrow> double" where
  "double_of_int n = round_double n 0"

fun dneg :: "double \<Rightarrow> double" where
  "dneg (Finite m e) = Finite (- m) e"
| "dneg (Infinity s) = Infinity (\<not> s)"
| "dneg NaN = NaN"

fun dadd :: "double \<Rightarrow> double \<Rightarrow> double" where
  "dadd (Finite m e) (Finite n f) =
     round_double (m * 2 ^ nat (e - min e f) + n * 2 ^ nat (f - min e f)) (min e f)"
| "dadd (Finite m e) (Infinity s) = Infinity s"
| "dadd (Infinity s) (Finite n f) = Infinity s"
| "dadd (Infinity s) (Infinity s') = (if s = s' then Infinity s else NaN)"
| "dadd _ _ = NaN"

definition dsub :: "double \<Rightarrow> double \<Rightarrow> double" where
  "dsub x y = dadd x (dneg y)"

fun dmul :: "double \<Rightarrow> double \<Rightarrow> double" where
  "dmul (Finite m e) (Finite n f) = round_double (m * n) (e + f)"
| "dmul (Finite m e) (Infinity s) = (if m = 0 then NaN else Infinity (s \<noteq> (m < 0)))"
| "dmul (Infinity s) (Finite n f) = (if n = 0 then NaN else Infinity (s \<noteq> (n < 0)))"
| "dmul (Infinity s) (Infinity s') = Infinity (s \<noteq> s')"
| "dmul _ _ = NaN"

text \<open>The quotient \<^verbatim>\<open>x/2\<close>: the exact quotient by a power of two is dyadic again.\<close>

fun dhalf :: "double \<Rightarrow> double" where
  "dhalf (Finite m e) = round_double m (e - 1)"
| "dhalf (Infinity s) = Infinity s"
| "dhalf NaN = NaN"

text \<open>The comparison \<^verbatim>\<open>x < y\<close>, false when an operand is NaN; \<^verbatim>\<open>x > y\<close> is \<open>dless y x\<close>.\<close>

fun dless :: "double \<Rightarrow> double \<Rightarrow> bool" where
  "dless (Finite m e) (Finite n f) =
     (m * 2 ^ nat (e - min e f) < n * 2 ^ nat (f - min e f))"
| "dless (Finite m e) (Infinity s) = (\<not> s)"
| "dless (Infinity s) (Finite n f) = s"
| "dless (Infinity s) (Infinity s') = (s \<and> \<not> s')"
| "dless _ _ = False"

subsection \<open>interpolateParametricCoordinate\<close>

text \<open>
  \<^verbatim>\<open>interpolateParametricCoordinate(t, a, b, range, isPeriodic)\<close> blends two parametric
  coordinates of a model entity. The two \<^verbatim>\<open>assert\<close>s before the final \<^verbatim>\<open>return\<close> are
  branches of the model: a failed assertion is the error that names it.
\<close>

datatype assertion = result_above_range0 | result_below_range1

definition interpolateParametricCoordinate ::
  "double \<Rightarrow> double \<Rightarrow> double \<Rightarrow> double \<times> double \<Rightarrow> bool \<Rightarrow> assertion + double" where
  "interpolateParametricCoordinate t a b rng isPeriodic =
     (if \<not> isPeriodic then Inr (dadd (dmul (dsub (double_of_int 1) t) a) (dmul t b))
      else
        let range' = (if dless (snd rng) (fst rng) then (snd rng, fst rng) else rng);
            swap = dless b a;
            a' = (if swap then b else a);
            b' = (if swap then a else b);
            t' = (if swap then dsub (double_of_int 1) t else t);
            period = dsub (snd range') (fst range');
            span = dsub b' a'
        in if dless span (dhalf period)
           then Inr (dadd (dmul (dsub (double_of_int 1) t') a') (dmul t' b'))
           else
             let a'' = dadd a' period;
                 result = dadd (dmul (dsub (double_of_int 1) t') b') (dmul t' a'');
                 result' = (if dless (snd range') result then dsub result period else result)
             in if \<not> dless (fst range') result' then Inl result_above_range0
                else if \<not> dless result' (snd range') then Inl result_below_range1
                else Inr result')"

subsection \<open>Inputs for the interpolator\<close>

text \<open>
  The periodic midpoint of the specification (scenario S1): the axis range from 0 to
  \<open>2\<pi>\<close>, \<open>a = 0.1\<close>, \<open>b = 2\<pi> - 0.1\<close>, \<open>t = 0.5\<close>. The doubles are the ones the literals
  \<^verbatim>\<open>0.1\<close>, \<^verbatim>\<open>0.5\<close> and the constant \<^verbatim>\<open>2*M_PI\<close> denote (\<^verbatim>\<open>0x1.999999999999ap-4\<close>, \<^verbatim>\<open>0x1p-1\<close>,
  \<^verbatim>\<open>0x1.921fb54442d18p+2\<close>), and \<open>b\<close> is their difference \<^verbatim>\<open>0x1.8bb94edddc6b2p+2\<close>.
\<close>

definition S1_range :: "double \<times> double" where
  "S1_range = (double_of_int 0, Finite 7074237752028440 (- 50))"

definition S1_a :: double where
  "S1_a = Finite 7205759403792794 (- 56)"

definition S1_b :: double where
  "S1_b = dsub (snd S1_range) S1_a"

definition S1_t :: double where
  "S1_t = Finite 4503599627370496 (- 53)"


section \<open>Snapping vertices to the geometric model (src/ma/maSnap.cc)\<close>

subsection \<open>The mesh and the adapter, as the snap code uses them\<close>

text \<open>
  Entities, model entities and tags are handles. A tag handle is the tag's name. A
  \<^verbatim>\<open>Vector\<close> is three coordinates; the snap code copies and compares them and computes
  nothing with them, so they are numbers here (reals, no NaN). The record \<open>Mesh\<close> holds
  what the snap code reads and writes through \<^verbatim>\<open>apf::Mesh2\<close>: the mesh dimension, the
  vertices in iteration order, point and parametric coordinate of a vertex, its
  classification, the geometry's \<^verbatim>\<open>snapToModel\<close>, the elements adjacent to a vertex,
  ownership, and the double tags (per tag name, a partial map from entities to values).
  \<open>Adapt\<close> is the adapter: the mesh, the per-entity flags and the input switch.
\<close>

type_synonym Entity = nat
type_synonym Model = nat
type_synonym Tag = string
type_synonym Vector = "real \<times> real \<times> real"

datatype Flag = LAYER | SNAP

record Mesh =
  getDimension :: int
  vertices :: "Entity list"
  getPoint :: "Entity \<Rightarrow> Vector"
  getParam :: "Entity \<Rightarrow> Vector"
  toModel :: "Entity \<Rightarrow> Model"
  getModelType :: "Model \<Rightarrow> int"
  snapToModel :: "Model \<Rightarrow> Vector \<Rightarrow> Vector"
  getAdjacent :: "Entity \<Rightarrow> int \<Rightarrow> Entity list"
  isOwned :: "Entity \<Rightarrow> bool"
  doubleTags :: "Tag \<rightharpoonup> (Entity \<rightharpoonup> Vector)"

record Adapt =
  mesh :: Mesh
  flags :: "Entity \<Rightarrow> Flag set"
  shouldSnap :: bool

text \<open>
  Modelled from the spec: the mesh collaborator's point and tag operations (section 6:
  getPoint/setPoint, per-entity typed tags with create, set, get, has, remove,
  destroyTag), which belong to the mesh library. Creating a tag under a name that is
  taken, and reading a tag an entity does not carry, do not return: the value \<open>None\<close>.
\<close>

definition setPoint :: "Mesh \<Rightarrow> Entity \<Rightarrow> Vector \<Rightarrow> Mesh" where
  "setPoint m v p = m\<lparr>getPoint := (getPoint m)(v := p)\<rparr>"

definition getPosition :: "Mesh \<Rightarrow> Entity \<Rightarrow> Vector" where
  "getPosition m v = getPoint m v"

definition createDoubleTag :: "Mesh \<Rightarrow> Tag \<Rightarrow> (Mesh \<times> Tag) option" where
  "createDoubleTag m name =
     (if name \<in> dom (doubleTags m) then None
      else Some (m\<lparr>doubleTags := (doubleTags m)(name \<mapsto> Map.empty)\<rparr>, name))"

definition getDoubleTag :: "Mesh \<Rightarrow> Entity \<Rightarrow> Tag \<Rightarrow> Vector option" where
  "getDoubleTag m v t = (case doubleTags m t of None \<Rightarrow> None | Some f \<Rightarrow> f v)"

definition hasTag :: "Mesh \<Rightarrow> Entity \<Rightarrow> Tag \<Rightarrow> bool" where
  "hasTag m v t = (getDoubleTag m v t \<noteq> None)"

definition setDoubleTag :: "Mesh \<Rightarrow> Entity \<Rightarrow> Tag \<Rightarrow> Vector \<Rightarrow> Mesh" where
  "setDoubleTag m v t s =
     (case doubleTags m t of None \<Rightarrow> m
      | Some f \<Rightarrow> m\<lparr>doubleTags := (doubleTags m)(t \<mapsto> f(v \<mapsto> s))\<rparr>)"

definition removeTag :: "Mesh \<Rightarrow> Entity \<Rightarrow> Tag \<Rightarrow> Mesh" where
  "removeTag m v t =
     (case doubleTags m t of None \<Rightarrow> m
      | Some f \<Rightarrow> m\<lparr>doubleTags := (doubleTags m)(t \<mapsto> f(v := None))\<rparr>)"

definition destroyTag :: "Mesh \<Rightarrow> Tag \<Rightarrow> Mesh" where
  "destroyTag m t = m\<lparr>doubleTags := (doubleTags m)(t := None)\<rparr>"

definition getFlag :: "Adapt \<Rightarrow> Entity \<Rightarrow> Flag \<Rightarrow> bool" where
  "getFlag a e f = (f \<in> flags a e)"

definition setFlag :: "Adapt \<Rightarrow> Entity \<Rightarrow> Flag \<Rightarrow> Adapt" where
  "setFlag a e f = a\<lparr>flags := (flags a)(e := insert f (flags a e))\<rparr>"

definition clearFlag :: "Adapt \<Rightarrow> Entity \<Rightarrow> Flag \<Rightarrow> Adapt" where
  "clearFlag a e f = a\<lparr>flags := (flags a)(e := flags a e - {f})\<rparr>"

text \<open>
  Modelled from the spec: \<^verbatim>\<open>PCU_Add_Longs\<close>, the collective sum (section 4.B: reduce the
  owned count across all parts via sum). The model follows one process; what the other
  processes contribute to the sum is an input, the list \<open>remote\<close>.
\<close>

definition PCU_Add_Longs :: "int \<Rightarrow> int list \<Rightarrow> int" where
  "PCU_Add_Longs n remote = n + sum_list remote"

subsection \<open>getSnapPoint, trySnapping\<close>

definition getSnapPoint :: "Mesh \<Rightarrow> Entity \<Rightarrow> Vector" where
  "getSnapPoint m v = snapToModel m (toModel m v) (getParam m v)"

text \<open>
  The loop of \<^verbatim>\<open>trySnapping\<close> over the adjacent elements, which stops at the first
  invalid one. The validity predicate \<^verbatim>\<open>isElementValid(adapter, element)\<close> is a
  collaborator and a parameter of the model.
\<close>

fun allElementsValid :: "(Adapt \<Rightarrow> Entity \<Rightarrow> bool) \<Rightarrow> Adapt \<Rightarrow> Entity list \<Rightarrow> bool" where
  "allElementsValid isElementValid adapter [] = True"
| "allElementsValid isElementValid adapter (e # es) =
     (if \<not> isElementValid adapter e then False
      else allElementsValid isElementValid adapter es)"

definition trySnapping ::
  "(Adapt \<Rightarrow> Entity \<Rightarrow> bool) \<Rightarrow> Adapt \<Rightarrow> Tag \<Rightarrow> Entity \<Rightarrow> (bool \<times> Adapt) option" where
  "trySnapping isElementValid adapter tag vert =
     (let x = getPosition (mesh adapter) vert in
      case getDoubleTag (mesh adapter) vert tag of
        None \<Rightarrow> None
      | Some s \<Rightarrow>
          let moved = adapter\<lparr>mesh := setPoint (mesh adapter) vert s\<rparr>;
              elements = getAdjacent (mesh moved) vert (getDimension (mesh moved))
          in if allElementsValid isElementValid moved elements
             then Some (True, moved\<lparr>mesh := removeTag (mesh moved) vert tag\<rparr>)
             else Some (False, moved\<lparr>mesh := setPoint (mesh moved) vert x\<rparr>))"

subsection \<open>The Snapper operator\<close>

record Snapper =
  successCount :: int
  didAnything :: bool

definition Snapper_new :: Snapper where
  "Snapper_new = \<lparr>successCount = 0, didAnything = False\<rparr>"

definition shouldApply :: "Adapt \<Rightarrow> Entity \<Rightarrow> bool" where
  "shouldApply adapter e = getFlag adapter e SNAP"

text \<open>
  \<^verbatim>\<open>Snapper::apply\<close>. The Digger is a collaborator: \<open>digger_run adapter tag vert\<close> stands
  for \<^verbatim>\<open>digger.run()\<close> on the vertex set by \<^verbatim>\<open>setVert\<close>, and returns whether it dug and
  the adapter it leaves.
\<close>

definition Snapper_apply ::
  "(Adapt \<Rightarrow> Entity \<Rightarrow> bool) \<Rightarrow> (Adapt \<Rightarrow> Tag \<Rightarrow> Entity \<Rightarrow> bool \<times> Adapt) \<Rightarrow>
   Tag \<Rightarrow> bool \<Rightarrow> Entity \<Rightarrow> Snapper \<times> Adapt \<Rightarrow> (Snapper \<times> Adapt) option" where
  "Snapper_apply isElementValid digger_run tag shouldDig vert sa =
     (let s = fst sa; adapter = snd sa in
      case (if shouldDig then
              (case digger_run adapter tag vert of
                 (True, dugAdapter) \<Rightarrow>
                   map_option (\<lambda>r. (s\<lparr>didAnything := True\<rparr>, r))
                     (trySnapping isElementValid dugAdapter tag vert)
               | (False, dugAdapter) \<Rightarrow> Some (s, (False, dugAdapter)))
            else map_option (\<lambda>r. (s, r)) (trySnapping isElementValid adapter tag vert)) of
        None \<Rightarrow> None
      | Some (s1, (snapped, adapter1)) \<Rightarrow>
          Some (if snapped
                then s1\<lparr>didAnything := True, successCount := successCount s1 + 1\<rparr>
                else s1,
                clearFlag adapter1 vert SNAP))"

text \<open>
  Modelled from the spec: \<^verbatim>\<open>applyOperator\<close>, the cavity driver (section 4.C: for each
  candidate vertex it ensures locality of the cavity and calls apply), which belongs to
  the mesh library. It visits the vertices of the mesh in iteration order and applies
  the operator to each vertex that \<^verbatim>\<open>shouldApply\<close> accepts.
\<close>

fun applyToVertices ::
  "(Adapt \<Rightarrow> Entity \<Rightarrow> bool) \<Rightarrow> (Adapt \<Rightarrow> Tag \<Rightarrow> Entity \<Rightarrow> bool \<times> Adapt) \<Rightarrow>
   Tag \<Rightarrow> bool \<Rightarrow> Entity list \<Rightarrow> Snapper \<times> Adapt \<Rightarrow> (Snapper \<times> Adapt) option" where
  "applyToVertices isElementValid digger_run tag shouldDig [] sa = Some sa"
| "applyToVertices isElementValid digger_run tag shouldDig (v # vs) sa =
     (if shouldApply (snd sa) v
      then (case Snapper_apply isElementValid digger_run tag shouldDig v sa of
              None \<Rightarrow> None
            | Some sa' \<Rightarrow> applyToVertices isElementValid digger_run tag shouldDig vs sa')
      else applyToVertices isElementValid digger_run tag shouldDig vs sa)"

definition applyOperator ::
  "(Adapt \<Rightarrow> Entity \<Rightarrow> bool) \<Rightarrow> (Adapt \<Rightarrow> Tag \<Rightarrow> Entity \<Rightarrow> bool \<times> Adapt) \<Rightarrow>
   Tag \<Rightarrow> bool \<Rightarrow> Adapt \<Rightarrow> (Snapper \<times> Adapt) option" where
  "applyOperator isElementValid digger_run tag shouldDig a =
     applyToVertices isElementValid digger_run tag shouldDig (vertices (mesh a)) (Snapper_new, a)"

subsection \<open>tagVertsToSnap, markVertsToSnap, snapOneRound, snap\<close>

definition areExactlyEqual :: "Vector \<Rightarrow> Vector \<Rightarrow> bool" where
  "areExactlyEqual a b =
     (fst a = fst b \<and> fst (snd a) = fst (snd b) \<and> snd (snd a) = snd (snd b))"

fun tagVertsLoop :: "Adapt \<Rightarrow> Tag \<Rightarrow> int \<Rightarrow> Entity list \<Rightarrow> int \<Rightarrow> Adapt \<times> int" where
  "tagVertsLoop a t meshDim [] n = (a, n)"
| "tagVertsLoop a t meshDim (v # vs) n =
     (if getFlag a v LAYER then tagVertsLoop a t meshDim vs n
      else
        let md = getModelType (mesh a) (toModel (mesh a) v) in
        if md = meshDim then tagVertsLoop a t meshDim vs n
        else
          let s = getSnapPoint (mesh a) v;
              x = getPosition (mesh a) v
          in if areExactlyEqual s x then tagVertsLoop a t meshDim vs n
             else tagVertsLoop (a\<lparr>mesh := setDoubleTag (mesh a) v t s\<rparr>) t meshDim vs
                    (if isOwned (mesh a) v then n + 1 else n))"

text \<open>
  \<^verbatim>\<open>tagVertsToSnap\<close> up to its collective call: the new adapter, the tag handle and the
  local count \<^verbatim>\<open>n\<close> that this process hands to \<^verbatim>\<open>PCU_Add_Longs\<close>.
\<close>

definition tagVertsToSnap_local :: "Adapt \<Rightarrow> (Adapt \<times> Tag \<times> int) option" where
  "tagVertsToSnap_local a =
     (let meshDim = getDimension (mesh a) in
      case createDoubleTag (mesh a) ''ma_snap'' of
        None \<Rightarrow> None
      | Some (m1, t) \<Rightarrow>
          (case tagVertsLoop (a\<lparr>mesh := m1\<rparr>) t meshDim (vertices m1) 0 of
             (a', n) \<Rightarrow> Some (a', t, n)))"

definition tagVertsToSnap :: "Adapt \<Rightarrow> int list \<Rightarrow> (Adapt \<times> Tag \<times> int) option" where
  "tagVertsToSnap a remote =
     (case tagVertsToSnap_local a of
        None \<Rightarrow> None
      | Some (a', t, n) \<Rightarrow> Some (a', t, PCU_Add_Longs n remote))"

fun markVertsLoop :: "Adapt \<Rightarrow> Tag \<Rightarrow> Entity list \<Rightarrow> Adapt" where
  "markVertsLoop a t [] = a"
| "markVertsLoop a t (v # vs) =
     (if hasTag (mesh a) v t then markVertsLoop (setFlag a v SNAP) t vs
      else markVertsLoop a t vs)"

definition markVertsToSnap :: "Adapt \<Rightarrow> Tag \<Rightarrow> Adapt" where
  "markVertsToSnap a t = markVertsLoop a t (vertices (mesh a))"

text \<open>
  \<^verbatim>\<open>snapOneRound\<close> up to its collective call (mark the vertices, run the Snapper), and
  the whole of it. The result is what the C++ returns (\<^verbatim>\<open>snapper.didAnything\<close>), the
  adapter, and the updated \<^verbatim>\<open>successCount\<close>.
\<close>

definition runSnapper ::
  "(Adapt \<Rightarrow> Entity \<Rightarrow> bool) \<Rightarrow> (Adapt \<Rightarrow> Tag \<Rightarrow> Entity \<Rightarrow> bool \<times> Adapt) \<Rightarrow>
   Adapt \<Rightarrow> Tag \<Rightarrow> bool \<Rightarrow> (Snapper \<times> Adapt) option" where
  "runSnapper isElementValid digger_run a t shouldDig =
     applyOperator isElementValid digger_run t shouldDig (markVertsToSnap a t)"

definition snapOneRound ::
  "(Adapt \<Rightarrow> Entity \<Rightarrow> bool) \<Rightarrow> (Adapt \<Rightarrow> Tag \<Rightarrow> Entity \<Rightarrow> bool \<times> Adapt) \<Rightarrow>
   Adapt \<Rightarrow> Tag \<Rightarrow> bool \<Rightarrow> int \<Rightarrow> int list \<Rightarrow> (bool \<times> Adapt \<times> int) option" where
  "snapOneRound isElementValid digger_run a t shouldDig successCount0 remote =
     (case runSnapper isElementValid digger_run a t shouldDig of
        None \<Rightarrow> None
      | Some (snapper, a') \<Rightarrow>
          let n = PCU_Add_Longs (successCount snapper) remote
          in Some (didAnything snapper, a', successCount0 + n))"

text \<open>
  The loop \<^verbatim>\<open>while (snapOneRound(a, tag, shouldDig, successCount));\<close> on a single
  process (no peers, so the collective sum adds nothing). A round with digging reports
  progress whenever the Digger dug, so the loop need not end: not returning is the
  value \<open>None\<close>.
\<close>

partial_function (option) snapRounds ::
  "(Adapt \<Rightarrow> Entity \<Rightarrow> bool) \<Rightarrow> (Adapt \<Rightarrow> Tag \<Rightarrow> Entity \<Rightarrow> bool \<times> Adapt) \<Rightarrow>
   Tag \<Rightarrow> bool \<Rightarrow> Adapt \<times> int \<Rightarrow> (Adapt \<times> int) option" where
  "snapRounds isElementValid digger_run t shouldDig st =
     (case snapOneRound isElementValid digger_run (fst st) t shouldDig (snd st) [] of
        None \<Rightarrow> None
      | Some (again, a', successCount') \<Rightarrow>
          if again then snapRounds isElementValid digger_run t shouldDig (a', successCount')
          else Some (a', successCount'))"

text \<open>
  \<^verbatim>\<open>snap\<close> on a single process. It returns the adapter and the two numbers of the final
  report, \<^verbatim>\<open>successCount\<close> and \<^verbatim>\<open>targetCount\<close>.
\<close>

definition snap ::
  "(Adapt \<Rightarrow> Entity \<Rightarrow> bool) \<Rightarrow> (Adapt \<Rightarrow> Tag \<Rightarrow> Entity \<Rightarrow> bool \<times> Adapt) \<Rightarrow>
   Adapt \<Rightarrow> (Adapt \<times> (int \<times> int) option) option" where
  "snap isElementValid digger_run a =
     (if \<not> shouldSnap a then Some (a, None)
      else
        case tagVertsToSnap a [] of
          None \<Rightarrow> None
        | Some (a1, tag, targetCount) \<Rightarrow>
            (case snapRounds isElementValid digger_run tag False (a1, 0) of
               None \<Rightarrow> None
             | Some (a2, successCount2) \<Rightarrow>
                 (case snapRounds isElementValid digger_run tag True (a2, successCount2) of
                    None \<Rightarrow> None
                  | Some (a3, successCount3) \<Rightarrow>
                      Some (a3\<lparr>mesh := destroyTag (mesh a3) tag\<rparr>,
                            Some (successCount3, targetCount)))))"


subsection \<open>Small meshes for the snap code\<close>

definition emptyMesh :: Mesh where
  "emptyMesh = \<lparr>getDimension = 2, vertices = [], getPoint = (\<lambda>v. (0, 0, 0)),
     getParam = (\<lambda>v. (0, 0, 0)), toModel = (\<lambda>v. 0), getModelType = (\<lambda>g. 0),
     snapToModel = (\<lambda>g p. p), getAdjacent = (\<lambda>v d. []), isOwned = (\<lambda>v. True),
     doubleTags = Map.empty\<rparr>"

text \<open>
  One vertex \<open>0\<close> at the origin, tagged with the snap target \<open>(1, 0, 0)\<close>, and one element
  \<open>10\<close> adjacent to it. The element is valid when the first coordinate of the vertex is at
  most \<open>bound\<close>.
\<close>

definition oneVertexAdapt :: Adapt where
  "oneVertexAdapt =
     \<lparr>mesh = emptyMesh\<lparr>vertices := [0],
               getAdjacent := (\<lambda>v d. if v = 0 then [10] else []),
               doubleTags := [''ma_snap'' \<mapsto> [0 \<mapsto> (1, 0, 0)]]\<rparr>,
      flags = (\<lambda>v. {}), shouldSnap = True\<rparr>"

definition validLeftOf :: "real \<Rightarrow> Adapt \<Rightarrow> Entity \<Rightarrow> bool" where
  "validLeftOf bound b e = (e \<noteq> 10 \<or> fst (getPoint (mesh b) 0) \<le> bound)"

subsection \<open>What the snap planner selects, and the processes of a parallel run\<close>

text \<open>
  A vertex is a snap candidate of an adapter when it is not flagged as boundary layer,
  the dimension of its classifying model entity differs from the mesh dimension, and its
  snap point differs from its position.
\<close>

definition snapCandidate :: "Adapt \<Rightarrow> Entity \<Rightarrow> bool" where
  "snapCandidate a v =
     (\<not> getFlag a v LAYER \<and>
      getModelType (mesh a) (toModel (mesh a) v) \<noteq> getDimension (mesh a) \<and>
      getSnapPoint (mesh a) v \<noteq> getPoint (mesh a) v)"

definition ownedCandidates :: "Adapt \<Rightarrow> Entity set" where
  "ownedCandidates a =
     {v \<in> set (vertices (mesh a)). snapCandidate a v \<and> isOwned (mesh a) v}"

text \<open>
  The candidates in the words of the specification (section 4.B: every vertex not flagged
  as a boundary-layer vertex and whose classifying model entity has dimension < mesh
  dimension, whose snap point is not exactly its position).
\<close>

definition snapCandidate_spec :: "Adapt \<Rightarrow> Entity \<Rightarrow> bool" where
  "snapCandidate_spec a v =
     (\<not> getFlag a v LAYER \<and>
      getModelType (mesh a) (toModel (mesh a) v) < getDimension (mesh a) \<and>
      getSnapPoint (mesh a) v \<noteq> getPoint (mesh a) v)"

definition ownedCandidates_spec :: "Adapt \<Rightarrow> Entity set" where
  "ownedCandidates_spec a =
     {v \<in> set (vertices (mesh a)). snapCandidate_spec a v \<and> isOwned (mesh a) v}"

text \<open>
  In a parallel run every process executes \<^verbatim>\<open>tagVertsToSnap\<close> on its own part. The
  contribution of a part to the collective sum is its local count; process \<open>i\<close> receives
  the contributions of all the others.
\<close>

definition contributions :: "Adapt list \<Rightarrow> int list" where
  "contributions parts =
     map (\<lambda>a. case tagVertsToSnap_local a of None \<Rightarrow> 0 | Some (a', t, n) \<Rightarrow> n) parts"

definition others :: "nat \<Rightarrow> 'a list \<Rightarrow> 'a list" where
  "others i xs = take i xs @ drop (Suc i) xs"

text \<open>
  Two parts of a mesh of dimension 2. Part A has the vertices \<open>0, 1, 2\<close>, all classified
  on a model edge: \<open>0\<close> is off its snap point and owned, \<open>1\<close> is off its snap point and not
  owned, \<open>2\<close> is on its snap point. Part B has one owned vertex \<open>5\<close> off its snap point
  on a model edge, one boundary-layer vertex \<open>6\<close>, and one owned vertex \<open>8\<close> off its
  snap point that is classified on the model face \<open>9\<close>.
\<close>

definition partA :: Adapt where
  "partA =
     \<lparr>mesh = emptyMesh\<lparr>vertices := [0, 1, 2], getModelType := (\<lambda>g. 1),
               getParam := (\<lambda>v. if v = 2 then (0, 0, 0) else (1, 0, 0)),
               isOwned := (\<lambda>v. v \<noteq> 1)\<rparr>,
      flags = (\<lambda>v. {}), shouldSnap = True\<rparr>"

definition partB :: Adapt where
  "partB =
     \<lparr>mesh = emptyMesh\<lparr>vertices := [5, 6, 8], toModel := (\<lambda>v. if v = 8 then 9 else 0),
               getModelType := (\<lambda>g. if g = 9 then 2 else 1),
               getParam := (\<lambda>v. (0, 2, 0))\<rparr>,
      flags = (\<lambda>v. if v = 6 then {LAYER} else {}), shouldSnap = True\<rparr>"

text \<open>
  Two notions for the proofs about the tagging loop. \<open>tagged_with a t f\<close> is the adapter
  \<open>a\<close> with the table of tag \<open>t\<close> replaced by \<open>f\<close>; the loop writes nothing else.
  \<open>loopCandidate\<close> is the test the loop makes on a vertex, with the mesh dimension that
  was read before the loop.
\<close>

definition tagged_with :: "Adapt \<Rightarrow> Tag \<Rightarrow> (Entity \<rightharpoonup> Vector) \<Rightarrow> Adapt" where
  "tagged_with a t f = a\<lparr>mesh := (mesh a)\<lparr>doubleTags := (doubleTags (mesh a))(t \<mapsto> f)\<rparr>\<rparr>"

definition loopCandidate :: "Adapt \<Rightarrow> int \<Rightarrow> Entity \<Rightarrow> bool" where
  "loopCandidate a meshDim v =
     (\<not> getFlag a v LAYER \<and> getModelType (mesh a) (toModel (mesh a) v) \<noteq> meshDim \<and>
      getSnapPoint (mesh a) v \<noteq> getPoint (mesh a) v)"

text \<open>
  A Digger that never digs, and a second one-vertex part: as \<open>oneVertexAdapt\<close>, with the
  snap target \<open>(3, 0, 0)\<close>.
\<close>

definition noDigger :: "Adapt \<Rightarrow> Tag \<Rightarrow> Entity \<Rightarrow> bool \<times> Adapt" where
  "noDigger a t v = (False, a)"

definition farTargetAdapt :: Adapt where
  "farTargetAdapt =
     oneVertexAdapt\<lparr>mesh := (mesh oneVertexAdapt)\<lparr>doubleTags := [''ma_snap'' \<mapsto> [0 \<mapsto> (3, 0, 0)]]\<rparr>\<rparr>"

text \<open>
  A mesh of dimension 2 with two vertices \<open>0\<close> and \<open>1\<close> at the origin, both classified on a
  model edge with snap point \<open>(1, 0, 0)\<close>, and one element \<open>10\<close> adjacent to both. The
  element is valid while both vertices have a first coordinate of at most \<open>1/2\<close>. The
  Digger \<open>collapseDigger\<close> digs only at vertex \<open>0\<close>, while that vertex has an adjacent
  element, and removes the elements.
\<close>

definition twoVertexAdapt :: Adapt where
  "twoVertexAdapt =
     \<lparr>mesh = emptyMesh\<lparr>vertices := [0, 1], getModelType := (\<lambda>g. 1),
               getParam := (\<lambda>v. (1, 0, 0)),
               getAdjacent := (\<lambda>v d. if v \<le> 1 then [10] else [])\<rparr>,
      flags = (\<lambda>v. {}), shouldSnap = True\<rparr>"

definition validBothLeft :: "Adapt \<Rightarrow> Entity \<Rightarrow> bool" where
  "validBothLeft b e =
     (e \<noteq> 10 \<or> (fst (getPoint (mesh b) 0) \<le> 1/2 \<and> fst (getPoint (mesh b) 1) \<le> 1/2))"

definition collapseDigger :: "Adapt \<Rightarrow> Tag \<Rightarrow> Entity \<Rightarrow> bool \<times> Adapt" where
  "collapseDigger a t v =
     (if v = 0 \<and> getAdjacent (mesh a) 0 (getDimension (mesh a)) \<noteq> []
      then (True, a\<lparr>mesh := (mesh a)\<lparr>getAdjacent := (\<lambda>v d. [])\<rparr>\<rparr>)
      else (False, a))"

text \<open>
  The loop of the driver is evaluated through its unfolding equation.
\<close>

declare snapRounds.simps [code]

text \<open>
  \<open>oneVertexAdapt\<close> before the planner ran: no tag yet, the vertex classified on a model
  edge with snap point \<open>(1, 0, 0)\<close>.
\<close>

definition untaggedVertexAdapt :: Adapt where
  "untaggedVertexAdapt =
     \<lparr>mesh = emptyMesh\<lparr>vertices := [0], getModelType := (\<lambda>g. 1),
               getParam := (\<lambda>v. (1, 0, 0)),
               getAdjacent := (\<lambda>v d. if v = 0 then [10] else [])\<rparr>,
      flags = (\<lambda>v. {}), shouldSnap = True\<rparr>"

section \<open>Ghosting (src/pumi/pumi_ghost.cc, src/pumi/pumi_mesh.cc)\<close>

subsection \<open>The mesh and the process-wide instance, as the ghost code uses them\<close>

text \<open>
  \<^verbatim>\<open>Parts\<close> is \<^verbatim>\<open>std::set<int>\<close>: here the list of its elements in increasing order, which
  is the order in which the C++ iterates it. \<^verbatim>\<open>Copies\<close> is \<^verbatim>\<open>std::map<int, MeshEntity*>\<close>:
  part id and the handle of the copy on that part. A tag handle (\<^verbatim>\<open>pMeshTag\<close>) is the
  tag's name; the null pointer is \<open>None\<close>.
\<close>

type_synonym pMeshEnt = nat
type_synonym pMeshTag = string
type_synonym Parts = "int list"
type_synonym Copies = "(int \<times> pMeshEnt) list"

text \<open>
  The record \<open>pMesh\<close> holds what the ghost code reads and writes through the mesh pointer:
  the mesh dimension, the entities of each dimension in iteration order, the dimension of
  an entity, its classification and residence, the integer tags, remote copies, ghost
  copies, owner, the tests \<^verbatim>\<open>isShared\<close> and \<^verbatim>\<open>isGhosted\<close>, and, as a history of the calls
  of \<^verbatim>\<open>m->destroy\<close>, the entities destroyed so far.
\<close>

record pMesh =
  pumi_mesh_getDim :: int
  entities :: "nat \<Rightarrow> pMeshEnt list"
  entityDimension :: "pMeshEnt \<Rightarrow> nat"
  toModelEntity :: "pMeshEnt \<Rightarrow> nat"
  getResidence :: "pMeshEnt \<Rightarrow> Parts"
  intTags :: "pMeshTag \<rightharpoonup> (pMeshEnt \<rightharpoonup> int)"
  getRemotes :: "pMeshEnt \<Rightarrow> Copies"
  getGhosts :: "pMeshEnt \<Rightarrow> Copies"
  getOwner :: "pMeshEnt \<Rightarrow> int"
  isShared :: "pMeshEnt \<Rightarrow> bool"
  isGhosted :: "pMeshEnt \<Rightarrow> bool"
  destroyed :: "pMeshEnt list"

text \<open>
  The singleton \<^verbatim>\<open>pumi\<close> of pumi_mesh.cc, with the members the ghost code uses: the two
  tag pointers and the two registries, arrays of vectors indexed by dimension. (Its mesh
  and model pointers are left out: the mesh is passed to every function.)
\<close>

record pumi =
  ghost_tag :: "pMeshTag option"
  ghosted_tag :: "pMeshTag option"
  ghost_vec :: "nat \<Rightarrow> pMeshEnt list"
  ghosted_vec :: "nat \<Rightarrow> pMeshEnt list"

text \<open>The constructor \<^verbatim>\<open>pumi::pumi()\<close>: both tag pointers null, the registries empty.\<close>

definition pumi_new :: pumi where
  "pumi_new = \<lparr>ghost_tag = None, ghosted_tag = None,
               ghost_vec = (\<lambda>d. []), ghosted_vec = (\<lambda>d. [])\<rparr>"

text \<open>
  Modelled from the spec: the mesh collaborator's operations on integer tags, entities
  and ghost copies (section 6: per-entity typed tags with create, set, get, has, remove,
  destroyTag; addGhost/deleteGhost; entity destruction), which belong to the mesh
  library. \<^verbatim>\<open>m->hasTag\<close>, \<^verbatim>\<open>m->removeTag\<close> and \<^verbatim>\<open>m->destroyTag\<close> on integer tags are
  \<open>hasIntTag\<close>, \<open>removeIntTag\<close> and \<open>destroyIntTag\<close>. Creating a tag under a name that is
  taken does not return (\<open>None\<close>). \<^verbatim>\<open>deleteGhost\<close> removes the ghost copies of an entity.
\<close>

definition findTag :: "pMesh \<Rightarrow> string \<Rightarrow> pMeshTag option" where
  "findTag m name = (if name \<in> dom (intTags m) then Some name else None)"

definition createIntTag :: "pMesh \<Rightarrow> string \<Rightarrow> (pMesh \<times> pMeshTag) option" where
  "createIntTag m name =
     (if name \<in> dom (intTags m) then None
      else Some (m\<lparr>intTags := (intTags m)(name \<mapsto> Map.empty)\<rparr>, name))"

definition getIntTag :: "pMesh \<Rightarrow> pMeshEnt \<Rightarrow> pMeshTag \<Rightarrow> int option" where
  "getIntTag m e t = (case intTags m t of None \<Rightarrow> None | Some f \<Rightarrow> f e)"

definition hasIntTag :: "pMesh \<Rightarrow> pMeshEnt \<Rightarrow> pMeshTag \<Rightarrow> bool" where
  "hasIntTag m e t = (getIntTag m e t \<noteq> None)"

definition setIntTag :: "pMesh \<Rightarrow> pMeshEnt \<Rightarrow> pMeshTag \<Rightarrow> int \<Rightarrow> pMesh" where
  "setIntTag m e t x =
     (case intTags m t of None \<Rightarrow> m
      | Some f \<Rightarrow> m\<lparr>intTags := (intTags m)(t \<mapsto> f(e \<mapsto> x))\<rparr>)"

definition removeIntTag :: "pMesh \<Rightarrow> pMeshEnt \<Rightarrow> pMeshTag \<Rightarrow> pMesh" where
  "removeIntTag m e t =
     (case intTags m t of None \<Rightarrow> m
      | Some f \<Rightarrow> m\<lparr>intTags := (intTags m)(t \<mapsto> f(e := None))\<rparr>)"

definition destroyIntTag :: "pMesh \<Rightarrow> pMeshTag \<Rightarrow> pMesh" where
  "destroyIntTag m t = m\<lparr>intTags := (intTags m)(t := None)\<rparr>"

definition destroy :: "pMesh \<Rightarrow> pMeshEnt \<Rightarrow> pMesh" where
  "destroy m e = m\<lparr>entities := (\<lambda>d. removeAll e (entities m d)),
                    destroyed := destroyed m @ [e]\<rparr>"

definition deleteGhost :: "pMesh \<Rightarrow> pMeshEnt \<Rightarrow> pMesh" where
  "deleteGhost m e = m\<lparr>getGhosts := (getGhosts m)(e := []),
                        isGhosted := (isGhosted m)(e := False)\<rparr>"

subsection \<open>The ghost plan: class Ghosting\<close>

text \<open>Insertion into a \<^verbatim>\<open>std::set<int>\<close>.\<close>

definition Parts_insert :: "int \<Rightarrow> Parts \<Rightarrow> Parts" where
  "Parts_insert x xs = (if x \<in> set xs then xs else insort x xs)"

text \<open>
  The members of a \<^verbatim>\<open>Ghosting\<close>: the ghost dimension, the handle of the index tag, and
  \<^verbatim>\<open>parts_vec\<close>, for each entity dimension the vector of destination sets. Its mesh
  pointer is the mesh that every operation takes and returns next to the plan.
\<close>

record Ghosting =
  ghost_dim :: nat
  parts_index_tag :: pMeshTag
  parts_vec :: "nat \<Rightarrow> Parts list"

text \<open>
  The constructor \<^verbatim>\<open>Ghosting::Ghosting(mesh, d)\<close>. It sets a tag pointer of the instance
  only when the mesh has no tag of that name.
\<close>

definition Ghosting_new :: "pumi \<times> pMesh \<Rightarrow> nat \<Rightarrow> (pumi \<times> pMesh \<times> Ghosting) option" where
  "Ghosting_new pm d =
     (let p = fst pm; m = snd pm in
      case (if findTag m ''ghost_tag'' = None
            then map_option (\<lambda>(m1, t). (p\<lparr>ghost_tag := Some t\<rparr>, m1)) (createIntTag m ''ghost_tag'')
            else Some (p, m)) of
        None \<Rightarrow> None
      | Some (p1, m1) \<Rightarrow>
          (case (if findTag m1 ''ghosted_tag'' = None
                 then map_option (\<lambda>(m2, t). (p1\<lparr>ghosted_tag := Some t\<rparr>, m2))
                        (createIntTag m1 ''ghosted_tag'')
                 else Some (p1, m1)) of
             None \<Rightarrow> None
           | Some (p2, m2) \<Rightarrow>
               (case createIntTag m2 ''_parts_index_'' of
                  None \<Rightarrow> None
                | Some (m3, t) \<Rightarrow>
                    Some (p2, m3, \<lparr>ghost_dim = d, parts_index_tag = t, parts_vec = (\<lambda>k. [])\<rparr>))))"

definition Ghosting_has :: "pMesh \<times> Ghosting \<Rightarrow> pMeshEnt \<Rightarrow> bool" where
  "Ghosting_has mg e = hasIntTag (fst mg) e (parts_index_tag (snd mg))"

text \<open>
  \<^verbatim>\<open>Ghosting::send(e, to)\<close>. The test of \<^verbatim>\<open>to\<close> against the local part id is commented out
  in the source, so the function does not read the local part id at all. A failed
  \<^verbatim>\<open>assert(index != -1)\<close> and an index outside the vector do not return (\<open>None\<close>).
\<close>

definition Ghosting_send :: "pMesh \<times> Ghosting \<Rightarrow> pMeshEnt \<Rightarrow> int \<Rightarrow> (pMesh \<times> Ghosting) option" where
  "Ghosting_send mg e to =
     (let m = fst mg; g = snd mg;
          d = entityDimension m e;
          fresh = \<not> hasIntTag m e (parts_index_tag g);
          index = (if fresh then Some (int (length (parts_vec g d)))
                   else getIntTag m e (parts_index_tag g));
          m1 = (if fresh then setIntTag m e (parts_index_tag g) (int (length (parts_vec g d)))
                else m);
          vec = (if fresh then parts_vec g d @ [[]] else parts_vec g d)
      in case index of
           None \<Rightarrow> None
         | Some i \<Rightarrow>
             if i = - 1 then None
             else if i < 0 \<or> int (length vec) \<le> i then None
             else Some (m1, g\<lparr>parts_vec :=
                              (parts_vec g)(d := vec[nat i := Parts_insert to (vec ! nat i)])\<rparr>))"

fun Ghosting_send_each ::
  "pMesh \<times> Ghosting \<Rightarrow> pMeshEnt list \<Rightarrow> int \<Rightarrow> (pMesh \<times> Ghosting) option" where
  "Ghosting_send_each mg [] to = Some mg"
| "Ghosting_send_each mg (e # es) to =
     (case Ghosting_send mg e to of
        None \<Rightarrow> None
      | Some mg' \<Rightarrow> Ghosting_send_each mg' es to)"

text \<open>
  \<^verbatim>\<open>Ghosting::send(to)\<close>, with the local part id \<^verbatim>\<open>PCU_Comm_Self()\<close> as the parameter
  \<open>self\<close>.
\<close>

definition Ghosting_send_all :: "int \<Rightarrow> pMesh \<times> Ghosting \<Rightarrow> int \<Rightarrow> (pMesh \<times> Ghosting) option" where
  "Ghosting_send_all self mg to =
     (if to = self then Some mg
      else Ghosting_send_each mg (entities (fst mg) (ghost_dim (snd mg))) to)"

text \<open>
  \<^verbatim>\<open>Ghosting::sending(e, d)\<close>: the destination set at the entity's index in the vector of
  dimension \<open>d\<close>. The assertion that the entity has the index tag is a branch.
\<close>

definition Ghosting_sending :: "pMesh \<times> Ghosting \<Rightarrow> pMeshEnt \<Rightarrow> nat \<Rightarrow> Parts option" where
  "Ghosting_sending mg e d =
     (case getIntTag (fst mg) e (parts_index_tag (snd mg)) of
        None \<Rightarrow> None
      | Some i \<Rightarrow>
          if 0 \<le> i \<and> i < int (length (parts_vec (snd mg) d))
          then Some (parts_vec (snd mg) d ! nat i)
          else None)"

definition Ghosting_count_of :: "pMesh \<times> Ghosting \<Rightarrow> pMeshEnt \<Rightarrow> nat \<Rightarrow> int option" where
  "Ghosting_count_of mg e d =
     (if \<not> hasIntTag (fst mg) e (parts_index_tag (snd mg)) then Some 0
      else map_option (\<lambda>ps. int (length ps)) (Ghosting_sending mg e d))"

definition Ghosting_count :: "Ghosting \<Rightarrow> int" where
  "Ghosting_count g = int (length (parts_vec g (ghost_dim g)))"

subsection \<open>The send pass: set_subtract, ghost_sendEntities\<close>

fun set_subtract :: "Parts \<Rightarrow> Parts \<Rightarrow> Parts \<Rightarrow> Parts" where
  "set_subtract [] B C = C"
| "set_subtract (a # A) B C =
     (if a \<notin> set B then set_subtract A B (Parts_insert a C) else set_subtract A B C)"

text \<open>
  Modelled from the spec: \<^verbatim>\<open>apf::packEntity\<close> (section 4.G: pack the entity and all its
  tags onto the communicator), which belongs to the mesh library. A packed message is
  the destination part, the entity, and for each tag of the list \<open>tags\<close> that the entity
  carries the tag and its value.
\<close>

type_synonym Message = "int \<times> pMeshEnt \<times> (pMeshTag \<times> int) list"

definition packTags :: "pMesh \<Rightarrow> pMeshEnt \<Rightarrow> pMeshTag list \<Rightarrow> (pMeshTag \<times> int) list" where
  "packTags m e tags =
     concat (map (\<lambda>t. case getIntTag m e t of None \<Rightarrow> [] | Some x \<Rightarrow> [(t, x)]) tags)"

definition packEntity :: "pMesh \<Rightarrow> int \<Rightarrow> pMeshEnt \<Rightarrow> pMeshTag list \<Rightarrow> Message" where
  "packEntity m to e tags = (to, e, packTags m e tags)"

text \<open>
  \<^verbatim>\<open>ghost_sendEntities\<close>, with the local part id as the parameter \<open>self\<close>. The result is the
  list of the messages packed, in order.
\<close>

fun ghost_sendEntities ::
  "int \<Rightarrow> pMesh \<times> Ghosting \<Rightarrow> nat \<Rightarrow> pMeshEnt list \<Rightarrow> pMeshTag list \<Rightarrow> Message list option" where
  "ghost_sendEntities src_partid mg entDim [] tags = Some []"
| "ghost_sendEntities src_partid mg entDim (ent # entitiesToExchg) tags =
     (let m = fst mg in
      if isShared m ent \<and> src_partid \<noteq> getOwner m ent
      then ghost_sendEntities src_partid mg entDim entitiesToExchg tags
      else
        let res_shared =
              (if isShared m ent
               then Parts_insert src_partid (fold Parts_insert (map fst (getRemotes m ent)) [])
               else []);
            res_parts =
              (if isGhosted m ent
               then fold Parts_insert (map fst (getGhosts m ent)) res_shared
               else res_shared)
        in case Ghosting_sending mg ent entDim of
             None \<Rightarrow> None
           | Some dests \<Rightarrow>
               let target_pids = fold Parts_insert dests [];
                   temp = set_subtract target_pids res_parts []
               in if length temp = 0
                  then ghost_sendEntities src_partid mg entDim entitiesToExchg tags
                  else
                    map_option
                      (\<lambda>rest. map (\<lambda>piter. packEntity m piter ent tags)
                                 (filter (\<lambda>piter. piter \<noteq> src_partid) temp) @ rest)
                      (ghost_sendEntities src_partid mg entDim entitiesToExchg tags))"

subsection \<open>pumi_ghost_createLayer (its checks), pumi_ghost_delete\<close>

text \<open>
  \<^verbatim>\<open>pumi_ghost_createLayer\<close> from its entry to the construction of the plan. The number
  of processes \<^verbatim>\<open>PCU_Comm_Peers()\<close> and the rank are the parameters \<open>peers\<close> and \<open>self\<close>;
  the state is the instance, the mesh and the lines printed so far. The function either
  returns at one of its two early \<^verbatim>\<open>return\<close>s, or goes on: it creates the tag
  \<^verbatim>\<open>ghost_check_mark\<close> and the plan, and with them computes the layers and calls
  \<^verbatim>\<open>pumi_ghost_create\<close> (that part is not in the model; \<^verbatim>\<open>include_copy\<close> is read only
  there).
\<close>

datatype createLayer_outcome =
    Returned "pumi \<times> pMesh" "string list"
  | Planning "pumi \<times> pMesh" "string list" pMeshTag Ghosting

definition pumi_ghost_createLayer ::
  "int \<Rightarrow> int \<Rightarrow> pumi \<times> pMesh \<Rightarrow> string list \<Rightarrow> int \<Rightarrow> int \<Rightarrow> int \<Rightarrow> int \<Rightarrow>
   createLayer_outcome option" where
  "pumi_ghost_createLayer peers self pm out brg_dim ghost_dim0 num_layer include_copy =
     (if peers = 1 \<or> num_layer = 0 then Some (Returned pm out)
      else
        let mesh_dim = pumi_mesh_getDim (snd pm) in
        if brg_dim \<ge> ghost_dim0 \<or> 0 > brg_dim \<or> brg_dim \<ge> mesh_dim \<or>
           ghost_dim0 > mesh_dim \<or> ghost_dim0 < 1
        then Some (Returned pm
                     (if self = 0
                      then out @ [''pumi_ghost_createLayer ERROR: invalid bridge/ghost dimension'']
                      else out))
        else
          case createIntTag (snd pm) ''ghost_check_mark'' of
            None \<Rightarrow> None
          | Some (m1, tag) \<Rightarrow>
              (case Ghosting_new (fst pm, m1) (nat ghost_dim0) of
                 None \<Rightarrow> None
               | Some (p2, m2, plan) \<Rightarrow> Some (Planning (p2, m2) out tag plan)))"

text \<open>
  \<^verbatim>\<open>pumi_ghost_delete\<close>. The assertion on \<^verbatim>\<open>ghosted_tag\<close> is a branch; so is the call of
  \<^verbatim>\<open>destroyTag\<close> on a null \<^verbatim>\<open>ghost_tag\<close>.
\<close>

definition delete_dimension :: "pumi \<Rightarrow> pMeshTag \<Rightarrow> pMesh \<Rightarrow> nat \<Rightarrow> pMesh" where
  "delete_dimension p tag m d =
     fold (\<lambda>e m'. deleteGhost (removeIntTag m' e tag) e) (ghosted_vec p d)
       (fold (\<lambda>e m'. destroy m' e) (ghost_vec p d) m)"

text \<open>
  The first loop of \<^verbatim>\<open>pumi_ghost_delete\<close> (lines 547-558), over the dimensions 3 down
  to 0: it gives the mesh as it is when the two tags are about to be destroyed.
\<close>

definition pumi_ghost_delete_loops :: "pumi \<Rightarrow> pMeshTag \<Rightarrow> pMesh \<Rightarrow> pMesh" where
  "pumi_ghost_delete_loops p tag m = fold (\<lambda>d m'. delete_dimension p tag m' d) [3, 2, 1, 0] m"

definition pumi_ghost_delete :: "pumi \<times> pMesh \<Rightarrow> (pumi \<times> pMesh) option" where
  "pumi_ghost_delete pm =
     (let p = fst pm; m = snd pm in
      case ghosted_tag p of
        None \<Rightarrow> None
      | Some tag \<Rightarrow>
          let m1 = pumi_ghost_delete_loops p tag m in
          case ghost_tag p of
            None \<Rightarrow> None
          | Some gtag \<Rightarrow>
              let m2 = destroyIntTag m1 gtag;
                  p1 = p\<lparr>ghost_tag := None\<rparr>;
                  m3 = destroyIntTag m2 tag;
                  p2 = p1\<lparr>ghosted_tag := None\<rparr>
              in Some (fold (\<lambda>d p'. p'\<lparr>ghost_vec := (ghost_vec p')(d := []),
                                         ghosted_vec := (ghosted_vec p')(d := [])\<rparr>)
                         [3, 2, 1, 0] p2,
                       m3))"

subsection \<open>Notions for stating the properties of the ghost code\<close>

text \<open>
  The destination set of an entity in a plan: what \<^verbatim>\<open>sending\<close> gives for the entity at
  its own dimension, and empty when the entity has no entry.
\<close>

definition destinations :: "pMesh \<times> Ghosting \<Rightarrow> pMeshEnt \<Rightarrow> int set" where
  "destinations mg e =
     (case Ghosting_sending mg e (entityDimension (fst mg) e) of
        None \<Rightarrow> {}
      | Some ps \<Rightarrow> set ps)"

text \<open>
  A plan is well formed on a mesh when its index tag exists, every index stored in the
  tag lies inside the vector of the entity's dimension, and two entities of one dimension
  do not share an index. The constructor establishes this and \<^verbatim>\<open>send\<close> keeps it.
\<close>

definition plan_ok :: "pMesh \<times> Ghosting \<Rightarrow> bool" where
  "plan_ok mg =
     (parts_index_tag (snd mg) \<in> dom (intTags (fst mg)) \<and>
      (\<forall>e i. getIntTag (fst mg) e (parts_index_tag (snd mg)) = Some i \<longrightarrow>
         0 \<le> i \<and> i < int (length (parts_vec (snd mg) (entityDimension (fst mg) e)))) \<and>
      (\<forall>e e' i. getIntTag (fst mg) e (parts_index_tag (snd mg)) = Some i \<and>
         getIntTag (fst mg) e' (parts_index_tag (snd mg)) = Some i \<and>
         entityDimension (fst mg) e = entityDimension (fst mg) e' \<longrightarrow> e = e'))"

subsection \<open>Small meshes for the ghost code\<close>

definition emptyPMesh :: pMesh where
  "emptyPMesh = \<lparr>pumi_mesh_getDim = 3, entities = (\<lambda>d. []), entityDimension = (\<lambda>e. 0),
     toModelEntity = (\<lambda>e. 0), getResidence = (\<lambda>e. []), intTags = Map.empty, getRemotes = (\<lambda>e. []), getGhosts = (\<lambda>e. []), getOwner = (\<lambda>e. 0),
     isShared = (\<lambda>e. False), isGhosted = (\<lambda>e. False), destroyed = []\<rparr>"

text \<open>
  A mesh with the two vertices \<open>7\<close> and \<open>8\<close>, and an empty plan of ghost dimension 0 on it.
\<close>

definition twoVertexPMesh :: pMesh where
  "twoVertexPMesh = emptyPMesh\<lparr>entities := (\<lambda>d. if d = 0 then [7, 8] else []),
                                intTags := [''_parts_index_'' \<mapsto> Map.empty]\<rparr>"

definition emptyPlan :: Ghosting where
  "emptyPlan = \<lparr>ghost_dim = 0, parts_index_tag = ''_parts_index_'', parts_vec = (\<lambda>k. [])\<rparr>"

text \<open>
  A part with id 0 and three vertices, with a plan of ghost dimension 0. Vertex \<open>7\<close> is
  neither shared nor ghosted and is planned for the parts 1 and 2. Vertex \<open>8\<close> is shared
  with part 1, owned here, already ghosted on part 2, and planned for the parts 0, 1, 2
  and 3. Vertex \<open>9\<close> is shared with part 1 and owned there, and planned for part 2.
\<close>

definition sendMesh :: pMesh where
  "sendMesh = emptyPMesh\<lparr>
     entities := (\<lambda>d. if d = 0 then [7, 8, 9] else []),
     intTags := [''_parts_index_'' \<mapsto> [7 \<mapsto> 0, 8 \<mapsto> 1, 9 \<mapsto> 2]],
     getRemotes := (\<lambda>e. if e = 8 then [(1, 80)] else if e = 9 then [(1, 90)] else []),
     getGhosts := (\<lambda>e. if e = 8 then [(2, 81)] else []),
     getOwner := (\<lambda>e. if e = 9 then 1 else 0),
     isShared := (\<lambda>e. e = 8 \<or> e = 9),
     isGhosted := (\<lambda>e. e = 8)\<rparr>"

definition sendPlan :: Ghosting where
  "sendPlan = \<lparr>ghost_dim = 0, parts_index_tag = ''_parts_index_'',
               parts_vec = (\<lambda>k. if k = 0 then [[1, 2], [0, 1, 2, 3], [2]] else [])\<rparr>"

text \<open>
  The entities that \<^verbatim>\<open>pumi_ghost_delete\<close> visits: those of the two registries, over the
  four dimensions.
\<close>

definition all_ghosts :: "pumi \<Rightarrow> pMeshEnt set" where
  "all_ghosts p =
     set (ghost_vec p 3) \<union> set (ghost_vec p 2) \<union> set (ghost_vec p 1) \<union> set (ghost_vec p 0)"

definition all_ghosted :: "pumi \<Rightarrow> pMeshEnt set" where
  "all_ghosted p =
     set (ghosted_vec p 3) \<union> set (ghosted_vec p 2) \<union> set (ghosted_vec p 1) \<union>
     set (ghosted_vec p 0)"



subsection \<open>The receive pass and the acknowledgement pass: unpackGhost, setupGhosts\<close>

text \<open>
  Modelled from the spec: the unpack helpers of the mesh library and the operations they
  rest on (section 4.G, receive pass: unpack the sender handle, classification, residence
  and entity type; construct the ghost vertex or non-vertex in the local mesh under the
  same classification; unpack tags; \<^verbatim>\<open>addGhost(entity, sender_part, sender_handle)\<close>).
  The eight entity types are numbered from vertex (0) to pyramid (7), as the weights
  table of src/test/ghost.cc lists them. The mesh chooses the handle of an entity it
  constructs: in the model the handle is an argument. A new entity carries no tag and
  has no copies.
\<close>

definition typeDimension :: "nat \<Rightarrow> nat option" where
  "typeDimension ty = (if ty < 8 then Some ([0, 1, 2, 2, 3, 3, 3, 3] ! ty) else None)"

definition createEntity :: "pMesh \<Rightarrow> pMeshEnt \<Rightarrow> nat \<Rightarrow> nat \<Rightarrow> pMesh" where
  "createEntity m e d c =
     m\<lparr>entities := (entities m)(d := entities m d @ [e]),
       entityDimension := (entityDimension m)(e := d),
       toModelEntity := (toModelEntity m)(e := c),
       intTags := (\<lambda>t. map_option (\<lambda>f. f(e := None)) (intTags m t)),
       getRemotes := (getRemotes m)(e := []),
       getGhosts := (getGhosts m)(e := []),
       isShared := (isShared m)(e := False),
       isGhosted := (isGhosted m)(e := False)\<rparr>"

definition unpackVertex :: "pMesh \<Rightarrow> nat \<Rightarrow> pMeshEnt \<Rightarrow> pMesh option" where
  "unpackVertex m c e = Some (createEntity m e 0 c)"

definition unpackNonVertex :: "pMesh \<Rightarrow> nat \<Rightarrow> nat \<Rightarrow> pMeshEnt \<Rightarrow> pMesh option" where
  "unpackNonVertex m ty c e = map_option (\<lambda>d. createEntity m e d c) (typeDimension ty)"

definition setResidence :: "pMesh \<Rightarrow> pMeshEnt \<Rightarrow> Parts \<Rightarrow> pMesh" where
  "setResidence m e r = m\<lparr>getResidence := (getResidence m)(e := r)\<rparr>"

definition unpackTags :: "pMesh \<Rightarrow> pMeshEnt \<Rightarrow> (pMeshTag \<times> int) list \<Rightarrow> pMesh" where
  "unpackTags m e td = fold (\<lambda>tx m'. setIntTag m' e (fst tx) (snd tx)) td m"

definition addGhost :: "pMesh \<Rightarrow> pMeshEnt \<Rightarrow> int \<Rightarrow> pMeshEnt \<Rightarrow> pMesh" where
  "addGhost m e q h =
     m\<lparr>getGhosts := (getGhosts m)(e :=
            insort_key fst (q, h) (filter (\<lambda>c. fst c \<noteq> q) (getGhosts m e))),
       isGhosted := (isGhosted m)(e := True)\<rparr>"

text \<open>
  What \<^verbatim>\<open>unpackGhost\<close> reads from a message: the entity type, the sender's handle, the
  classification, the residence, and the tag data.
\<close>

record GhostMessage =
  msg_type :: nat
  msg_sender :: pMeshEnt
  msg_model :: nat
  msg_residence :: Parts
  msg_tags :: "(pMeshTag \<times> int) list"

text \<open>
  \<^verbatim>\<open>unpackGhost\<close>, for a message from the part \<open>from\<close>. Setting the ghost tag through a null
  \<^verbatim>\<open>ghost_tag\<close> pointer does not return.
\<close>

definition unpackGhost ::
  "pumi \<times> pMesh \<Rightarrow> int \<Rightarrow> GhostMessage \<Rightarrow> pMeshEnt \<Rightarrow> ((pumi \<times> pMesh) \<times> pMeshEnt) option" where
  "unpackGhost pm from msg entity =
     (case (if msg_type msg = 0 then unpackVertex (snd pm) (msg_model msg) entity
            else unpackNonVertex (snd pm) (msg_type msg) (msg_model msg) entity) of
        None \<Rightarrow> None
      | Some m1 \<Rightarrow>
          let residence = Parts_insert from (msg_residence msg);
              m2 = setResidence m1 entity residence;
              m3 = unpackTags m2 entity (msg_tags msg);
              m4 = addGhost m3 entity from (msg_sender msg);
              d = entityDimension m4 entity;
              p1 = (fst pm)\<lparr>ghost_vec := (ghost_vec (fst pm))(d := ghost_vec (fst pm) d @ [entity])\<rparr>
          in case ghost_tag p1 of
               None \<Rightarrow> None
             | Some t \<Rightarrow> Some ((p1, setIntTag m4 entity t from), entity))"

text \<open>
  \<^verbatim>\<open>ghost_receiveEntities\<close>: one \<^verbatim>\<open>unpackGhost\<close> for each incoming message, given with its
  sender part and the handle of the entity to construct.
\<close>

fun ghost_receiveEntities ::
  "pumi \<times> pMesh \<Rightarrow> (int \<times> GhostMessage \<times> pMeshEnt) list \<Rightarrow> pMeshEnt list \<Rightarrow>
   ((pumi \<times> pMesh) \<times> pMeshEnt list) option" where
  "ghost_receiveEntities pm [] received = Some (pm, received)"
| "ghost_receiveEntities pm (x # incoming) received =
     (case unpackGhost pm (fst x) (fst (snd x)) (snd (snd x)) of
        None \<Rightarrow> None
      | Some (pm', entity) \<Rightarrow> ghost_receiveEntities pm' incoming (received @ [entity]))"

text \<open>
  \<^verbatim>\<open>setupGhosts\<close>. First every received entity is echoed to the part of its first ghost
  copy, its sender: the message is the sender's handle and the new entity. Then, for each
  incoming echo (the part it comes from, the local entity, the handle of its new copy),
  the copy is recorded and the entity is tagged and registered unless it has the ghosted
  tag already.
\<close>

fun setupGhosts_echo :: "pMesh \<Rightarrow> pMeshEnt list \<Rightarrow> (int \<times> pMeshEnt \<times> pMeshEnt) list option" where
  "setupGhosts_echo m [] = Some []"
| "setupGhosts_echo m (entity # received) =
     (case getGhosts m entity of
        [] \<Rightarrow> None
      | c # cs \<Rightarrow> map_option (\<lambda>rest. (fst c, snd c, entity) # rest) (setupGhosts_echo m received))"

definition setupGhosts_receive ::
  "pumi \<times> pMesh \<Rightarrow> int \<times> pMeshEnt \<times> pMeshEnt \<Rightarrow> (pumi \<times> pMesh) option" where
  "setupGhosts_receive pm x =
     (let from = fst x; entity = fst (snd x); sender = snd (snd x);
          m1 = addGhost (snd pm) entity from sender
      in case ghosted_tag (fst pm) of
           None \<Rightarrow> None
         | Some t \<Rightarrow>
             if \<not> hasIntTag m1 entity t
             then let d = entityDimension m1 entity
                  in Some ((fst pm)\<lparr>ghosted_vec :=
                              (ghosted_vec (fst pm))(d := ghosted_vec (fst pm) d @ [entity])\<rparr>,
                           setIntTag m1 entity t from)
             else Some (fst pm, m1))"

fun setupGhosts_receive_all ::
  "pumi \<times> pMesh \<Rightarrow> (int \<times> pMeshEnt \<times> pMeshEnt) list \<Rightarrow> (pumi \<times> pMesh) option" where
  "setupGhosts_receive_all pm [] = Some pm"
| "setupGhosts_receive_all pm (x # incoming) =
     (case setupGhosts_receive pm x of
        None \<Rightarrow> None
      | Some pm' \<Rightarrow> setupGhosts_receive_all pm' incoming)"

definition setupGhosts ::
  "pumi \<times> pMesh \<Rightarrow> pMeshEnt list \<Rightarrow> (int \<times> pMeshEnt \<times> pMeshEnt) list \<Rightarrow>
   ((int \<times> pMeshEnt \<times> pMeshEnt) list \<times> pumi \<times> pMesh) option" where
  "setupGhosts pm received incoming =
     (case setupGhosts_echo (snd pm) received of
        None \<Rightarrow> None
      | Some echo \<Rightarrow> map_option (\<lambda>pm'. (echo, pm')) (setupGhosts_receive_all pm incoming))"

text \<open>
  The registries are complete for an instance and a mesh when every entity of the mesh
  that has a ghost copy, or carries the ghosted tag, is in one of the two registries.
\<close>

definition registered :: "pumi \<times> pMesh \<Rightarrow> bool" where
  "registered pm =
     (\<forall>d e. e \<in> set (entities (snd pm) d) \<and>
        (getGhosts (snd pm) e \<noteq> [] \<or>
         (\<exists>t. ghosted_tag (fst pm) = Some t \<and> hasIntTag (snd pm) e t)) \<longrightarrow>
        e \<in> all_ghosts (fst pm) \<union> all_ghosted (fst pm))"

section \<open>The parametric interpolator on doubles\<close>

text \<open>Evaluation of the arithmetic on numerals.\<close>

lemma bitlen_nat_numeral [simp]:
  "bitlen_nat 0 = 0"
  "bitlen_nat (Suc 0) = Suc 0"
  "bitlen_nat (numeral k) = Suc (bitlen_nat (numeral k div 2))"
  by (simp_all add: bitlen_nat.simps [of 0] bitlen_nat.simps [of "Suc 0"]
        bitlen_nat.simps [of "numeral k"])

lemmas double_eval =
  round_double_def [unfolded Let_def] round_half_even_def [unfolded Let_def]
  double_of_int_def dsub_def

lemma S1_b_value: "S1_b = Finite 6961647761344178 (- 50)"
  by (simp add: S1_range_def S1_a_def S1_b_def double_eval)

lemma S1_inside:
  "dless (fst S1_range) S1_a" "dless S1_a (snd S1_range)"
  "dless (fst S1_range) S1_b" "dless S1_b (snd S1_range)"
  by (simp_all add: S1_range_def S1_a_def S1_b_def double_eval)

lemma S1_blend:
  "dadd (dmul (dsub (double_of_int 1) S1_t) S1_b)
        (dmul S1_t (dadd S1_a (dsub (snd S1_range) (fst S1_range)))) = snd S1_range"
  by (simp add: S1_range_def S1_a_def S1_b_def S1_t_def double_eval)

lemma S1_aborts:
  "interpolateParametricCoordinate S1_t S1_a S1_b S1_range True = Inl result_below_range1"
  unfolding interpolateParametricCoordinate_def Let_def
  by (simp add: S1_range_def S1_a_def S1_b_def S1_t_def double_eval)

lemma wrap_at_0:
  "interpolateParametricCoordinate (double_of_int 0) (double_of_int 1) (double_of_int 7)
     (double_of_int 0, double_of_int 8) True = Inr (double_of_int 7)"
  unfolding interpolateParametricCoordinate_def Let_def
  by (simp add: double_eval)

lemma wrap_at_1:
  "interpolateParametricCoordinate (double_of_int 1) (double_of_int 1) (double_of_int 7)
     (double_of_int 0, double_of_int 8) True = Inr (double_of_int 1)"
  unfolding interpolateParametricCoordinate_def Let_def
  by (simp add: double_eval)

lemma wrap_at_quarter:
  "interpolateParametricCoordinate (round_double 1 (- 2)) (double_of_int 1) (double_of_int 7)
     (double_of_int 0, double_of_int 8) True = Inr (round_double 15 (- 1))"
  unfolding interpolateParametricCoordinate_def Let_def
  by (simp add: double_eval)

lemma near_at_0:
  "interpolateParametricCoordinate (double_of_int 0) (double_of_int 1) (double_of_int 3)
     (double_of_int 0, double_of_int 8) True = Inr (double_of_int 1)"
  unfolding interpolateParametricCoordinate_def Let_def
  by (simp add: double_eval)

lemma near_at_1:
  "interpolateParametricCoordinate (double_of_int 1) (double_of_int 1) (double_of_int 3)
     (double_of_int 0, double_of_int 8) True = Inr (double_of_int 3)"
  unfolding interpolateParametricCoordinate_def Let_def
  by (simp add: double_eval)

text \<open>
  Rounding alone can take the blend of the other branch to the end of the range: with
  both endpoints at the double next below \<open>2\<pi>\<close>, strictly inside the range of S1, and
  \<open>t = 0.2\<close> (\<^verbatim>\<open>0x1.999999999999ap-3\<close>), the function returns \<^verbatim>\<open>range[1]\<close>.
\<close>

lemma near_blend_reaches_range1:
  "dless (Finite 7074237752028439 (- 50)) (snd S1_range) \<and>
   interpolateParametricCoordinate (Finite 7205759403792794 (- 55))
     (Finite 7074237752028439 (- 50)) (Finite 7074237752028439 (- 50)) S1_range True
     = Inr (snd S1_range)"
  unfolding interpolateParametricCoordinate_def Let_def
  by (simp add: S1_range_def double_eval)

text \<open>
  Claim C2 does not hold of the code. For the periodic midpoint of the specification,
  whose endpoints lie strictly inside the range, the blend of the wrapping branch is the
  upper end of the range itself: it is not above \<^verbatim>\<open>range[1]\<close>, so no period is subtracted,
  and the assertion \<^verbatim>\<open>result < range[1]\<close> fails. On the periodic axis from 0 to 8 with
  \<open>a = 1\<close> and \<open>b = 7\<close>, more than half a period apart, the function returns \<open>b\<close> at
  \<open>t = 0\<close>, \<open>a\<close> at \<open>t = 1\<close> and \<open>7.5\<close> at \<open>t = 1/4\<close>: the wrapping branch blends from
  \<open>b\<close> to \<open>a\<close>, whereas the other branch (\<open>a = 1\<close>, \<open>b = 3\<close>) returns \<open>a\<close> at \<open>t = 0\<close> and
  \<open>b\<close> at \<open>t = 1\<close>.
\<close>

theorem interpolateParametricCoordinate_wrap_defects:
  "dless (fst S1_range) S1_a \<and> dless S1_a (snd S1_range) \<and>
   dless (fst S1_range) S1_b \<and> dless S1_b (snd S1_range) \<and>
   dadd (dmul (dsub (double_of_int 1) S1_t) S1_b)
        (dmul S1_t (dadd S1_a (dsub (snd S1_range) (fst S1_range)))) = snd S1_range \<and>
   interpolateParametricCoordinate S1_t S1_a S1_b S1_range True = Inl result_below_range1 \<and>
   interpolateParametricCoordinate (double_of_int 0) (double_of_int 1) (double_of_int 7)
     (double_of_int 0, double_of_int 8) True = Inr (double_of_int 7) \<and>
   interpolateParametricCoordinate (double_of_int 1) (double_of_int 1) (double_of_int 7)
     (double_of_int 0, double_of_int 8) True = Inr (double_of_int 1) \<and>
   interpolateParametricCoordinate (round_double 1 (- 2)) (double_of_int 1) (double_of_int 7)
     (double_of_int 0, double_of_int 8) True = Inr (round_double 15 (- 1)) \<and>
   interpolateParametricCoordinate (double_of_int 0) (double_of_int 1) (double_of_int 3)
     (double_of_int 0, double_of_int 8) True = Inr (double_of_int 1) \<and>
   interpolateParametricCoordinate (double_of_int 1) (double_of_int 1) (double_of_int 3)
     (double_of_int 0, double_of_int 8) True = Inr (double_of_int 3)"
  by (intro conjI S1_inside S1_blend S1_aborts wrap_at_0 wrap_at_1 wrap_at_quarter
        near_at_0 near_at_1)


section \<open>Properties of the snap code\<close>

lemma allElementsValid_iff:
  "allElementsValid valid a es = (\<forall>e\<in>set es. valid a e)"
  by (induction es) auto

lemma setPoint_restore: "a\<lparr>mesh := setPoint (setPoint (mesh a) v s) v (getPoint (mesh a) v)\<rparr> = a"
  by (simp add: setPoint_def)

text \<open>
  Claim C1. Let the vertex carry the snap tag with target \<open>s\<close>. \<^verbatim>\<open>trySnapping\<close> returns;
  it reports success exactly when every element adjacent to the vertex is valid with the
  vertex at \<open>s\<close>; on failure the adapter is what it was (the position restored, the tag
  kept); on success the vertex is at \<open>s\<close> and the tag is removed. Every element that was
  valid before the call is valid after it. The validity predicate is a collaborator: the
  theorem asks of it that moving this vertex does not change the validity of an element
  that is not adjacent to it, and that removing the snap tag changes no validity.
\<close>

theorem trySnapping_keeps_elements_valid:
  assumes tagged: "getDoubleTag (mesh a) v tag = Some s"
    and away: "\<And>p e. e \<notin> set (getAdjacent (mesh a) v (getDimension (mesh a))) \<Longrightarrow>
                 isElementValid (a\<lparr>mesh := setPoint (mesh a) v p\<rparr>) e = isElementValid a e"
    and untag: "\<And>p e. isElementValid (a\<lparr>mesh := removeTag (setPoint (mesh a) v p) v tag\<rparr>) e
                 = isElementValid (a\<lparr>mesh := setPoint (mesh a) v p\<rparr>) e"
  shows "\<exists>ok a'. trySnapping isElementValid a tag v = Some (ok, a') \<and>
           (ok \<longleftrightarrow> (\<forall>e \<in> set (getAdjacent (mesh a) v (getDimension (mesh a))).
                     isElementValid (a\<lparr>mesh := setPoint (mesh a) v s\<rparr>) e)) \<and>
           (\<not> ok \<longrightarrow> a' = a) \<and>
           (ok \<longrightarrow> getPoint (mesh a') v = s \<and> getDoubleTag (mesh a') v tag = None) \<and>
           (\<forall>E. isElementValid a E \<longrightarrow> isElementValid a' E)"
proof -
  let ?moved = "a\<lparr>mesh := setPoint (mesh a) v s\<rparr>"
  let ?els = "getAdjacent (mesh a) v (getDimension (mesh a))"
  have els: "getAdjacent (setPoint (mesh a) v s) v (getDimension (setPoint (mesh a) v s)) = ?els"
    by (simp add: setPoint_def)
  show ?thesis
  proof (cases "\<forall>e \<in> set ?els. isElementValid ?moved e")
    case True
    let ?a' = "a\<lparr>mesh := removeTag (setPoint (mesh a) v s) v tag\<rparr>"
    have run: "trySnapping isElementValid a tag v = Some (True, ?a')"
      using True tagged by (simp add: trySnapping_def Let_def allElementsValid_iff els)
    have pt: "getPoint (mesh ?a') v = s"
      by (simp add: removeTag_def setPoint_def split: option.splits)
    have tg: "getDoubleTag (mesh ?a') v tag = None"
      using tagged by (simp add: removeTag_def setPoint_def getDoubleTag_def split: option.splits)
    have keep: "isElementValid ?a' E" if "isElementValid a E" for E
    proof (cases "E \<in> set ?els")
      case True
      with \<open>\<forall>e \<in> set ?els. isElementValid ?moved e\<close> show ?thesis by (simp add: untag)
    next
      case False
      from away [OF False, of s] that show ?thesis by (simp add: untag)
    qed
    show ?thesis using run True pt tg keep by auto
  next
    case False
    have run: "trySnapping isElementValid a tag v = Some (False, a)"
      using False tagged
      by (simp add: trySnapping_def Let_def allElementsValid_iff els getPosition_def setPoint_restore)
    show ?thesis using run False by auto
  qed
qed

theorem trySnapping_keeps_elements_valid_witness:
  "getDoubleTag (mesh oneVertexAdapt) 0 ''ma_snap'' = Some (1, 0, 0)
   \<and> validLeftOf 2 oneVertexAdapt 10 
   \<and> (\<exists>a'. trySnapping (validLeftOf 2) oneVertexAdapt ''ma_snap'' 0 = Some (True, a')
        \<and> getPoint (mesh a') 0 = (1, 0, 0) \<and> getDoubleTag (mesh a') 0 ''ma_snap'' = None
        \<and> validLeftOf 2 a' 10)
   \<and> validLeftOf (1/2) oneVertexAdapt 10 
   \<and> trySnapping (validLeftOf (1/2)) oneVertexAdapt ''ma_snap'' 0 = Some (False, oneVertexAdapt)"
proof -
  have tagged: "getDoubleTag (mesh oneVertexAdapt) 0 ''ma_snap'' = Some (1, 0, 0)"
    by (simp add: oneVertexAdapt_def emptyMesh_def getDoubleTag_def)
  have adj: "getAdjacent (mesh oneVertexAdapt) 0 (getDimension (mesh oneVertexAdapt)) = [10]"
    by (simp add: oneVertexAdapt_def emptyMesh_def)
  have away: "\<And>p e. e \<notin> set (getAdjacent (mesh oneVertexAdapt) 0 (getDimension (mesh oneVertexAdapt))) \<Longrightarrow>
      validLeftOf bound (oneVertexAdapt\<lparr>mesh := setPoint (mesh oneVertexAdapt) 0 p\<rparr>) e
       = validLeftOf bound oneVertexAdapt e" for bound
    by (simp add: adj validLeftOf_def)
  have untag: "\<And>p e. validLeftOf bound (oneVertexAdapt\<lparr>mesh := removeTag (setPoint (mesh oneVertexAdapt) 0 p) 0 ''ma_snap''\<rparr>) e
      = validLeftOf bound (oneVertexAdapt\<lparr>mesh := setPoint (mesh oneVertexAdapt) 0 p\<rparr>) e" for bound
    by (simp add: validLeftOf_def removeTag_def setPoint_def split: option.splits)
  have v0: "validLeftOf bound oneVertexAdapt 10 = (0 \<le> bound)" for bound
    by (simp add: validLeftOf_def oneVertexAdapt_def emptyMesh_def)
  have m2: "validLeftOf bound (oneVertexAdapt\<lparr>mesh := setPoint (mesh oneVertexAdapt) 0 (1, 0, 0)\<rparr>) 10 = (1 \<le> bound)" for bound
    by (simp add: validLeftOf_def setPoint_def)
  from trySnapping_keeps_elements_valid [of oneVertexAdapt 0 "''ma_snap''" "(1, 0, 0)" "validLeftOf 2", OF tagged away untag]
  have A: "(\<exists>a'. trySnapping (validLeftOf 2) oneVertexAdapt ''ma_snap'' 0 = Some (True, a')
        \<and> getPoint (mesh a') 0 = (1, 0, 0) \<and> getDoubleTag (mesh a') 0 ''ma_snap'' = None
        \<and> validLeftOf 2 a' 10)"
    by (auto simp add: adj m2 v0)
  from trySnapping_keeps_elements_valid [of oneVertexAdapt 0 "''ma_snap''" "(1, 0, 0)" "validLeftOf (1/2)", OF tagged away untag]
  have B: "trySnapping (validLeftOf (1/2)) oneVertexAdapt ''ma_snap'' 0 = Some (False, oneVertexAdapt)"
    by (auto simp add: adj m2 v0)
  show ?thesis using tagged A B by (simp add: v0)
qed


subsection \<open>The snap planner\<close>

lemma areExactlyEqual_iff: "areExactlyEqual a b = (a = b)"
  by (cases a, cases b) (auto simp: areExactlyEqual_def)



lemma tagged_with_fields [simp]:
  "flags (tagged_with a t f) = flags a"
  "getPoint (mesh (tagged_with a t f)) = getPoint (mesh a)"
  "getParam (mesh (tagged_with a t f)) = getParam (mesh a)"
  "toModel (mesh (tagged_with a t f)) = toModel (mesh a)"
  "getModelType (mesh (tagged_with a t f)) = getModelType (mesh a)"
  "snapToModel (mesh (tagged_with a t f)) = snapToModel (mesh a)"
  "isOwned (mesh (tagged_with a t f)) = isOwned (mesh a)"
  "getDimension (mesh (tagged_with a t f)) = getDimension (mesh a)"
  "vertices (mesh (tagged_with a t f)) = vertices (mesh a)"
  "doubleTags (mesh (tagged_with a t f)) = (doubleTags (mesh a))(t \<mapsto> f)"
  by (simp_all add: tagged_with_def)

lemma tagged_with_twice [simp]: "tagged_with (tagged_with a t f) t g = tagged_with a t g"
  by (simp add: tagged_with_def)

lemma setDoubleTag_tagged_with:
  "(tagged_with a t f)\<lparr>mesh := setDoubleTag (mesh (tagged_with a t f)) v t s\<rparr>
     = tagged_with a t (f(v \<mapsto> s))"
  by (simp add: tagged_with_def setDoubleTag_def)


lemma loopCandidate_tagged_with [simp]:
  "loopCandidate (tagged_with a t f) meshDim v = loopCandidate a meshDim v"
  by (simp add: loopCandidate_def getFlag_def getSnapPoint_def)

lemma tagVertsLoop_tagged_with:
  "tagVertsLoop (tagged_with a t f) t meshDim vs n =
     (tagged_with a t (\<lambda>v. if v \<in> set vs \<and> loopCandidate a meshDim v
                           then Some (getSnapPoint (mesh a) v) else f v),
      n + int (length (filter (\<lambda>v. loopCandidate a meshDim v \<and> isOwned (mesh a) v) vs)))"
proof (induction vs arbitrary: f n)
  case Nil
  show ?case by simp
next
  case (Cons v vs)
  show ?case
  proof (cases "loopCandidate a meshDim v")
    case False
    then have "tagVertsLoop (tagged_with a t f) t meshDim (v # vs) n
                 = tagVertsLoop (tagged_with a t f) t meshDim vs n"
      by (auto simp: loopCandidate_def Let_def areExactlyEqual_iff getPosition_def
                     getFlag_def getSnapPoint_def)
    also have "\<dots> = (tagged_with a t (\<lambda>v. if v \<in> set vs \<and> loopCandidate a meshDim v
                           then Some (getSnapPoint (mesh a) v) else f v),
      n + int (length (filter (\<lambda>v. loopCandidate a meshDim v \<and> isOwned (mesh a) v) vs)))"
      by (rule Cons.IH)
    also have "(\<lambda>u. if u \<in> set vs \<and> loopCandidate a meshDim u
                           then Some (getSnapPoint (mesh a) u) else f u)
       = (\<lambda>u. if u \<in> set (v # vs) \<and> loopCandidate a meshDim u
                           then Some (getSnapPoint (mesh a) u) else f u)"
      using False by auto
    finally show ?thesis using False by simp
  next
    case True
    let ?s = "getSnapPoint (mesh a) v"
    let ?n' = "if isOwned (mesh a) v then n + 1 else n"
    from True have "tagVertsLoop (tagged_with a t f) t meshDim (v # vs) n
                 = tagVertsLoop ((tagged_with a t f)\<lparr>mesh := setDoubleTag (mesh (tagged_with a t f)) v t
                        (getSnapPoint (mesh (tagged_with a t f)) v)\<rparr>) t meshDim vs ?n'"
      by (auto simp: loopCandidate_def Let_def areExactlyEqual_iff getPosition_def
                     getFlag_def getSnapPoint_def)
    also have "\<dots> = tagVertsLoop (tagged_with a t (f(v \<mapsto> ?s))) t meshDim vs ?n'"
      by (simp add: setDoubleTag_tagged_with getSnapPoint_def)
    also have "\<dots> = (tagged_with a t (\<lambda>u. if u \<in> set vs \<and> loopCandidate a meshDim u
                           then Some (getSnapPoint (mesh a) u) else (f(v \<mapsto> ?s)) u),
      ?n' + int (length (filter (\<lambda>v. loopCandidate a meshDim v \<and> isOwned (mesh a) v) vs)))"
      by (rule Cons.IH)
    also have "(\<lambda>u. if u \<in> set vs \<and> loopCandidate a meshDim u
                           then Some (getSnapPoint (mesh a) u) else (f(v \<mapsto> ?s)) u)
       = (\<lambda>u. if u \<in> set (v # vs) \<and> loopCandidate a meshDim u
                           then Some (getSnapPoint (mesh a) u) else f u)"
      using True by auto
    finally show ?thesis using True by simp
  qed
qed

lemma tagVertsToSnap_local_eq:
  assumes fresh: "''ma_snap'' \<notin> dom (doubleTags (mesh a))"
  shows "tagVertsToSnap_local a =
     Some (tagged_with a ''ma_snap'' (\<lambda>v. if v \<in> set (vertices (mesh a)) \<and> snapCandidate a v
                           then Some (getSnapPoint (mesh a) v) else None),
           ''ma_snap'',
           int (length (filter (\<lambda>v. snapCandidate a v \<and> isOwned (mesh a) v) (vertices (mesh a)))))"
proof -
  have c: "createDoubleTag (mesh a) ''ma_snap''
       = Some ((mesh a)\<lparr>doubleTags := (doubleTags (mesh a))(''ma_snap'' \<mapsto> Map.empty)\<rparr>, ''ma_snap'')"
    using fresh by (simp add: createDoubleTag_def)
  have t: "a\<lparr>mesh := (mesh a)\<lparr>doubleTags := (doubleTags (mesh a))(''ma_snap'' \<mapsto> Map.empty)\<rparr>\<rparr>
            = tagged_with a ''ma_snap'' Map.empty"
    by (simp add: tagged_with_def)
  have cand: "loopCandidate a (getDimension (mesh a)) = snapCandidate a"
    by (rule ext) (simp add: loopCandidate_def snapCandidate_def)
  show ?thesis
    by (simp add: tagVertsToSnap_local_def c t tagVertsLoop_tagged_with cand)
qed

lemma sum_list_others:
  assumes "i < length xs"
  shows "(xs ! i :: int) + sum_list (others i xs) = sum_list xs"
proof -
  have "xs = take i xs @ xs ! i # drop (Suc i) xs"
    using assms by (rule id_take_nth_drop)
  then have "sum_list xs = sum_list (take i xs @ xs ! i # drop (Suc i) xs)" by simp
  then show ?thesis by (simp add: others_def)
qed

text \<open>
  The loop as the code has it: in a parallel run where on every part the name
  \<^verbatim>\<open>ma_snap\<close> is free and the vertex iteration lists each vertex once,
  \<^verbatim>\<open>tagVertsToSnap\<close> on part \<open>i\<close> tags the vertices that pass the three tests of the
  loop, the second of which is \<^verbatim>\<open>md == dim\<close>, and returns the sum of the owned ones
  over all parts.
\<close>

lemma tagVertsToSnap_tags_unequal_dimension:
  assumes fresh: "\<forall>a \<in> set parts. ''ma_snap'' \<notin> dom (doubleTags (mesh a)) \<and> distinct (vertices (mesh a))"
    and i: "i < length parts"
  shows "\<exists>a'. tagVertsToSnap (parts ! i) (others i (contributions parts))
                 = Some (a', ''ma_snap'', (\<Sum>a\<leftarrow>parts. int (card (ownedCandidates a)))) \<and>
              (\<forall>v. getDoubleTag (mesh a') v ''ma_snap'' =
                     (if v \<in> set (vertices (mesh (parts ! i))) \<and> snapCandidate (parts ! i) v
                      then Some (getSnapPoint (mesh (parts ! i)) v) else None))"
proof -
  have count: "int (length (filter (\<lambda>v. snapCandidate a v \<and> isOwned (mesh a) v) (vertices (mesh a))))
                 = int (card (ownedCandidates a))" if "a \<in> set parts" for a
  proof -
    from that fresh have d: "distinct (vertices (mesh a))" by blast
    have "ownedCandidates a = set (filter (\<lambda>v. snapCandidate a v \<and> isOwned (mesh a) v) (vertices (mesh a)))"
      by (auto simp: ownedCandidates_def)
    then show ?thesis using distinct_card [OF distinct_filter [OF d]] by simp
  qed
  have contrib: "contributions parts = map (\<lambda>a. int (card (ownedCandidates a))) parts"
    unfolding contributions_def
  proof (rule map_cong [OF refl])
    fix a assume a: "a \<in> set parts"
    with fresh have "''ma_snap'' \<notin> dom (doubleTags (mesh a))" by blast
    from tagVertsToSnap_local_eq [OF this] count [OF a]
    show "(case tagVertsToSnap_local a of None \<Rightarrow> 0 | Some (a', t, n) \<Rightarrow> n) = int (card (ownedCandidates a))"
      by simp
  qed
  let ?a = "parts ! i"
  from i have mem: "?a \<in> set parts" by simp
  with fresh have fr: "''ma_snap'' \<notin> dom (doubleTags (mesh ?a))" by blast
  have len: "i < length (contributions parts)" using i by (simp add: contributions_def)
  have total: "int (card (ownedCandidates ?a)) + sum_list (others i (contributions parts))
                 = (\<Sum>a\<leftarrow>parts. int (card (ownedCandidates a)))"
    using sum_list_others [OF len] i by (simp add: contrib)
  show ?thesis
    using tagVertsToSnap_local_eq [OF fr] count [OF mem] total
    by (simp add: tagVertsToSnap_def PCU_Add_Longs_def getDoubleTag_def)
qed


lemma snapCandidate_spec_iff:
  assumes "getModelType (mesh a) (toModel (mesh a) v) \<le> getDimension (mesh a)"
  shows "snapCandidate_spec a v = snapCandidate a v"
  using assms by (auto simp: snapCandidate_spec_def snapCandidate_def)

lemma ownedCandidates_spec_eq:
  assumes "\<forall>v \<in> set (vertices (mesh a)).
             getModelType (mesh a) (toModel (mesh a) v) \<le> getDimension (mesh a)"
  shows "ownedCandidates_spec a = ownedCandidates a"
  using assms by (auto simp: ownedCandidates_spec_def ownedCandidates_def snapCandidate_spec_iff)

text \<open>
  Claim C4. Take a parallel run where on every part the name \<^verbatim>\<open>ma_snap\<close> is free, the
  vertex iteration lists each vertex once, and every vertex is classified on a model
  entity whose dimension is at most the mesh dimension (as the classification of a mesh
  on its model has it). Then \<^verbatim>\<open>tagVertsToSnap\<close> on part \<open>i\<close> returns the tag \<^verbatim>\<open>ma_snap\<close>;
  afterwards a vertex carries the tag exactly when it is a vertex of the part that is not
  flagged as boundary layer, whose classifying model entity has a dimension strictly less
  than the mesh dimension, and whose snap point is not exactly its position, and the tag
  holds the snap point; the number returned is the sum over all parts of the number of
  owned vertices tagged on that part.
\<close>

theorem tagVertsToSnap_tags_candidates:
  assumes fresh: "\<forall>a \<in> set parts. ''ma_snap'' \<notin> dom (doubleTags (mesh a)) \<and> distinct (vertices (mesh a))"
    and classified: "\<forall>a \<in> set parts. \<forall>v \<in> set (vertices (mesh a)).
                       getModelType (mesh a) (toModel (mesh a) v) \<le> getDimension (mesh a)"
    and i: "i < length parts"
  shows "\<exists>a'. tagVertsToSnap (parts ! i) (others i (contributions parts))
                 = Some (a', ''ma_snap'', (\<Sum>a\<leftarrow>parts. int (card (ownedCandidates_spec a)))) \<and>
              (\<forall>v. getDoubleTag (mesh a') v ''ma_snap'' =
                     (if v \<in> set (vertices (mesh (parts ! i))) \<and> snapCandidate_spec (parts ! i) v
                      then Some (getSnapPoint (mesh (parts ! i)) v) else None))"
proof -
  have owned: "map (\<lambda>a. int (card (ownedCandidates_spec a))) parts
                 = map (\<lambda>a. int (card (ownedCandidates a))) parts"
  proof (rule map_cong [OF refl])
    fix a assume "a \<in> set parts"
    with classified have "\<forall>v \<in> set (vertices (mesh a)).
             getModelType (mesh a) (toModel (mesh a) v) \<le> getDimension (mesh a)" by blast
    then show "int (card (ownedCandidates_spec a)) = int (card (ownedCandidates a))"
      by (simp add: ownedCandidates_spec_eq)
  qed
  from i have mem: "parts ! i \<in> set parts" by simp
  have cand: "(v \<in> set (vertices (mesh (parts ! i))) \<and> snapCandidate_spec (parts ! i) v)
                = (v \<in> set (vertices (mesh (parts ! i))) \<and> snapCandidate (parts ! i) v)" for v
    using classified mem by (auto simp: snapCandidate_spec_iff)
  from tagVertsToSnap_tags_unequal_dimension [OF fresh i]
  show ?thesis by (simp add: owned cand)
qed


lemma partA_candidates_spec: "snapCandidate_spec partA v = (v \<noteq> 2)"
  by (simp add: snapCandidate_spec_def partA_def emptyMesh_def getFlag_def getSnapPoint_def)

lemma partB_candidates_spec: "snapCandidate_spec partB v = (v \<noteq> 6 \<and> v \<noteq> 8)"
  by (simp add: snapCandidate_spec_def partB_def emptyMesh_def getFlag_def getSnapPoint_def)

lemma partA_owned: "ownedCandidates_spec partA = {0}"
  by (auto simp: ownedCandidates_spec_def partA_candidates_spec) (simp_all add: partA_def emptyMesh_def)

lemma partB_owned: "ownedCandidates_spec partB = {5}"
  by (auto simp: ownedCandidates_spec_def partB_candidates_spec) (simp_all add: partB_def emptyMesh_def)

theorem tagVertsToSnap_tags_candidates_witness:
  "''ma_snap'' \<notin> dom (doubleTags (mesh partA)) \<and> distinct (vertices (mesh partA))
   \<and> ''ma_snap'' \<notin> dom (doubleTags (mesh partB)) \<and> distinct (vertices (mesh partB))
   \<and> getModelType (mesh partA) (toModel (mesh partA) 0) = 1 \<and> getDimension (mesh partA) = 2
   \<and> getModelType (mesh partB) (toModel (mesh partB) 5) = 1
   \<and> getModelType (mesh partB) (toModel (mesh partB) 8) = 2 \<and> getDimension (mesh partB) = 2
   \<and> getSnapPoint (mesh partB) 8 \<noteq> getPoint (mesh partB) 8 \<and> isOwned (mesh partB) 8
   \<and> (\<exists>a'. tagVertsToSnap partA (others 0 (contributions [partA, partB])) = Some (a', ''ma_snap'', 2)
         \<and> getDoubleTag (mesh a') 0 ''ma_snap'' = Some (1, 0, 0)
         \<and> getDoubleTag (mesh a') 1 ''ma_snap'' = Some (1, 0, 0)
         \<and> getDoubleTag (mesh a') 2 ''ma_snap'' = None)
   \<and> (\<exists>b'. tagVertsToSnap partB (others 1 (contributions [partA, partB])) = Some (b', ''ma_snap'', 2)
         \<and> getDoubleTag (mesh b') 5 ''ma_snap'' = Some (0, 2, 0)
         \<and> getDoubleTag (mesh b') 6 ''ma_snap'' = None
         \<and> getDoubleTag (mesh b') 8 ''ma_snap'' = None)"
proof -
  have fa: "''ma_snap'' \<notin> dom (doubleTags (mesh partA)) \<and> distinct (vertices (mesh partA))"
    by (simp add: partA_def emptyMesh_def)
  have fb: "''ma_snap'' \<notin> dom (doubleTags (mesh partB)) \<and> distinct (vertices (mesh partB))"
    by (simp add: partB_def emptyMesh_def)
  have fresh: "\<forall>a \<in> set [partA, partB].
                 ''ma_snap'' \<notin> dom (doubleTags (mesh a)) \<and> distinct (vertices (mesh a))"
    using fa fb by simp
  have da: "getModelType (mesh partA) g = 1 \<and> getDimension (mesh partA) = 2" for g
    by (simp add: partA_def emptyMesh_def)
  have db: "getModelType (mesh partB) (toModel (mesh partB) v) = (if v = 8 then 2 else 1)
              \<and> getDimension (mesh partB) = 2" for v
    by (simp add: partB_def emptyMesh_def)
  have off: "getSnapPoint (mesh partB) 8 \<noteq> getPoint (mesh partB) 8 \<and> isOwned (mesh partB) 8"
    by (simp add: getSnapPoint_def partB_def emptyMesh_def)
  have classified: "\<forall>a \<in> set [partA, partB]. \<forall>v \<in> set (vertices (mesh a)).
                      getModelType (mesh a) (toModel (mesh a) v) \<le> getDimension (mesh a)"
    using da db by simp
  have sa: "getSnapPoint (mesh partA) v = (if v = 2 then (0, 0, 0) else (1, 0, 0))" for v
    by (simp add: getSnapPoint_def partA_def emptyMesh_def)
  have sb: "getSnapPoint (mesh partB) v = (0, 2, 0)" for v
    by (simp add: getSnapPoint_def partB_def emptyMesh_def)
  have va: "vertices (mesh partA) = [0, 1, 2]" by (simp add: partA_def emptyMesh_def)
  have vb: "vertices (mesh partB) = [5, 6, 8]" by (simp add: partB_def emptyMesh_def)
  have A: "\<exists>a'. tagVertsToSnap partA (others 0 (contributions [partA, partB])) = Some (a', ''ma_snap'', 2)
         \<and> getDoubleTag (mesh a') 0 ''ma_snap'' = Some (1, 0, 0)
         \<and> getDoubleTag (mesh a') 1 ''ma_snap'' = Some (1, 0, 0)
         \<and> getDoubleTag (mesh a') 2 ''ma_snap'' = None"
    using tagVertsToSnap_tags_candidates [OF fresh classified, of 0]
    by (auto simp: partA_owned partB_owned partA_candidates_spec sa va)
  have B: "\<exists>b'. tagVertsToSnap partB (others 1 (contributions [partA, partB])) = Some (b', ''ma_snap'', 2)
         \<and> getDoubleTag (mesh b') 5 ''ma_snap'' = Some (0, 2, 0)
         \<and> getDoubleTag (mesh b') 6 ''ma_snap'' = None
         \<and> getDoubleTag (mesh b') 8 ''ma_snap'' = None"
    using tagVertsToSnap_tags_candidates [OF fresh classified, of 1]
    by (auto simp: partA_owned partB_owned partB_candidates_spec sb vb)
  show ?thesis using fa fb da db [of 5] db [of 8] off A B by simp
qed


subsection \<open>One round of the snap driver\<close>

lemmas snap_eval = runSnapper_def markVertsToSnap_def applyOperator_def Snapper_apply_def
  trySnapping_def shouldApply_def getFlag_def setFlag_def clearFlag_def hasTag_def
  getDoubleTag_def getPosition_def setPoint_def removeTag_def Snapper_new_def
  validLeftOf_def Let_def

lemma run_near:
  "\<exists>a0. runSnapper (validLeftOf 2) noDigger oneVertexAdapt ''ma_snap'' False
          = Some (\<lparr>successCount = 1, didAnything = True\<rparr>, a0)"
  by (simp add: snap_eval oneVertexAdapt_def emptyMesh_def)

lemma run_far:
  "\<exists>a1. runSnapper (validLeftOf 2) noDigger farTargetAdapt ''ma_snap'' False
          = Some (\<lparr>successCount = 0, didAnything = False\<rparr>, a1)"
  by (simp add: snap_eval farTargetAdapt_def oneVertexAdapt_def emptyMesh_def)

text \<open>
  Claim C3, evaluated on the code. Two processes run the same round without digging. On
  the one with \<open>oneVertexAdapt\<close> the vertex snaps; on the one with \<open>farTargetAdapt\<close> the
  snap is undone. Each process is handed the success count of the other by the collective
  sum, so both add 1 to \<^verbatim>\<open>successCount\<close>; but \<^verbatim>\<open>snapOneRound\<close> returns the local
  \<^verbatim>\<open>snapper.didAnything\<close>: \<open>True\<close> on the first process and \<open>False\<close> on the second, which
  therefore leaves its loop while the first goes on.
\<close>

theorem snapOneRound_returns_local_progress:
  "\<exists>s0 a0 s1 a1.
     runSnapper (validLeftOf 2) noDigger oneVertexAdapt ''ma_snap'' False = Some (s0, a0)
     \<and> runSnapper (validLeftOf 2) noDigger farTargetAdapt ''ma_snap'' False = Some (s1, a1)
     \<and> successCount s0 = 1 \<and> didAnything s0 \<and> successCount s1 = 0 \<and> \<not> didAnything s1
     \<and> snapOneRound (validLeftOf 2) noDigger oneVertexAdapt ''ma_snap'' False 0 [successCount s1]
          = Some (True, a0, 1)
     \<and> snapOneRound (validLeftOf 2) noDigger farTargetAdapt ''ma_snap'' False 0 [successCount s0]
          = Some (False, a1, 1)"
proof -
  from run_near obtain a0 where r0:
    "runSnapper (validLeftOf 2) noDigger oneVertexAdapt ''ma_snap'' False
       = Some (\<lparr>successCount = 1, didAnything = True\<rparr>, a0)" ..
  from run_far obtain a1 where r1:
    "runSnapper (validLeftOf 2) noDigger farTargetAdapt ''ma_snap'' False
       = Some (\<lparr>successCount = 0, didAnything = False\<rparr>, a1)" ..
  show ?thesis
    by (rule exI [of _ "\<lparr>successCount = 1, didAnything = True\<rparr>"], rule exI [of _ a0],
        rule exI [of _ "\<lparr>successCount = 0, didAnything = False\<rparr>"], rule exI [of _ a1])
       (simp add: r0 r1 snapOneRound_def PCU_Add_Longs_def)
qed


subsection \<open>Running snap again\<close>
lemma trySnapping_succeeds:
  assumes "getDoubleTag (mesh a) v tag = Some s"
    and "\<forall>e \<in> set (getAdjacent (mesh a) v (getDimension (mesh a))).
           isElementValid (a\<lparr>mesh := setPoint (mesh a) v s\<rparr>) e"
  shows "trySnapping isElementValid a tag v
           = Some (True, a\<lparr>mesh := removeTag (setPoint (mesh a) v s) v tag\<rparr>)"
proof -
  have "getAdjacent (setPoint (mesh a) v s) v (getDimension (setPoint (mesh a) v s))
          = getAdjacent (mesh a) v (getDimension (mesh a))"
    by (simp add: setPoint_def)
  with assms show ?thesis
    by (simp add: trySnapping_def Let_def allElementsValid_iff)
qed


lemma tagVertsToSnap_Some_fresh:
  assumes "tagVertsToSnap a remote = Some (a1, t, n)"
  shows "''ma_snap'' \<notin> dom (doubleTags (mesh a))"
  using assms
  by (auto simp: tagVertsToSnap_def tagVertsToSnap_local_def createDoubleTag_def Let_def
           split: option.splits if_splits)

lemma tagVertsToSnap_tag_value:
  assumes plan: "tagVertsToSnap a remote = Some (a1, t, n)"
    and tagged: "getDoubleTag (mesh a1) v t = Some s"
  shows "t = ''ma_snap'' \<and> s = getSnapPoint (mesh a) v \<and> getSnapPoint (mesh a1) v = getSnapPoint (mesh a) v"
proof -
  from tagVertsToSnap_local_eq [OF tagVertsToSnap_Some_fresh [OF plan]] plan
  have a1: "a1 = tagged_with a ''ma_snap'' (\<lambda>v. if v \<in> set (vertices (mesh a)) \<and> snapCandidate a v
                           then Some (getSnapPoint (mesh a) v) else None)"
    and t: "t = ''ma_snap''"
    by (auto simp add: tagVertsToSnap_def)
  from tagged show ?thesis
    unfolding a1 t by (simp add: getDoubleTag_def getSnapPoint_def split: if_splits)
qed

lemma trySnapping_success:
  assumes "trySnapping isElementValid b t v = Some (True, b')"
  shows "getDoubleTag (mesh b) v t = Some (getPoint (mesh b') v)
         \<and> getSnapPoint (mesh b') v = getSnapPoint (mesh b) v"
  using assms
  by (auto simp: trySnapping_def Let_def setPoint_def removeTag_def getDoubleTag_def
                 getSnapPoint_def split: option.splits if_splits)

lemma tagVertsToSnap_skips_snapped:
  assumes fresh: "''ma_snap'' \<notin> dom (doubleTags (mesh c))"
    and at: "getSnapPoint (mesh c) v = getPoint (mesh c) v"
  shows "\<exists>c' n'. tagVertsToSnap c remote = Some (c', ''ma_snap'', n')
           \<and> getDoubleTag (mesh c') v ''ma_snap'' = None"
  using tagVertsToSnap_local_eq [OF fresh] at
  by (simp add: tagVertsToSnap_def getDoubleTag_def snapCandidate_def)

text \<open>
  Claim C5, as amended. Let the planner have tagged the vertex with target \<open>s\<close>. If a later
  \<^verbatim>\<open>trySnapping\<close> on the vertex succeeds, in a state \<open>b\<close> where the vertex still has that
  tag and that snap point, then in every later state \<open>c\<close> where the vertex has not moved
  and its snap point is the same (and the tag has been destroyed, as \<^verbatim>\<open>snap\<close> does on
  exit), the snap point of the vertex is exactly its position, and \<^verbatim>\<open>tagVertsToSnap\<close>
  does not tag it: a snapped vertex is no candidate of a second run. Nothing is claimed
  for the vertices the first run left unsnapped: a second run tags and tries them again.
\<close>

theorem snapped_vertex_is_not_tagged_again:
  assumes plan: "tagVertsToSnap a remote = Some (a1, t, n)"
    and tagged: "getDoubleTag (mesh a1) v t = Some s"
    and before: "getDoubleTag (mesh b) v t = getDoubleTag (mesh a1) v t
                 \<and> getSnapPoint (mesh b) v = getSnapPoint (mesh a1) v"
    and snapped: "trySnapping isElementValid b t v = Some (True, b')"
    and after: "getPoint (mesh c) v = getPoint (mesh b') v
                \<and> getSnapPoint (mesh c) v = getSnapPoint (mesh b') v"
    and fresh: "''ma_snap'' \<notin> dom (doubleTags (mesh c))"
  shows "getSnapPoint (mesh c) v = getPoint (mesh c) v \<and>
         (\<exists>c' n'. tagVertsToSnap c remote' = Some (c', ''ma_snap'', n')
            \<and> getDoubleTag (mesh c') v ''ma_snap'' = None)"
proof -
  from tagVertsToSnap_tag_value [OF plan tagged]
  have s: "s = getSnapPoint (mesh a) v" and sp: "getSnapPoint (mesh a1) v = getSnapPoint (mesh a) v"
    by simp_all
  from trySnapping_success [OF snapped] before tagged
  have pt: "getPoint (mesh b') v = s" and sp': "getSnapPoint (mesh b') v = getSnapPoint (mesh b) v"
    by simp_all
  have at: "getSnapPoint (mesh c) v = getPoint (mesh c) v"
    using after pt sp' before sp s by simp
  from tagVertsToSnap_skips_snapped [OF fresh at, of remote'] at show ?thesis by simp
qed

theorem snapped_vertex_is_not_tagged_again_witness:
  "\<exists>a1 b'. tagVertsToSnap untaggedVertexAdapt [] = Some (a1, ''ma_snap'', 1)
     \<and> getDoubleTag (mesh a1) 0 ''ma_snap'' = Some (1, 0, 0)
     \<and> trySnapping (validLeftOf 2) a1 ''ma_snap'' 0 = Some (True, b')
     \<and> ''ma_snap'' \<notin> dom (doubleTags (destroyTag (mesh b') ''ma_snap''))
     \<and> getSnapPoint (destroyTag (mesh b') ''ma_snap'') 0 = (1, 0, 0)
     \<and> getPoint (destroyTag (mesh b') ''ma_snap'') 0 = (1, 0, 0)
     \<and> (\<exists>c' n'. tagVertsToSnap (b'\<lparr>mesh := destroyTag (mesh b') ''ma_snap''\<rparr>) [] = Some (c', ''ma_snap'', n')
            \<and> getDoubleTag (mesh c') 0 ''ma_snap'' = None)"
proof -
  let ?a = untaggedVertexAdapt
  let ?a1 = "tagged_with ?a ''ma_snap'' [0 \<mapsto> (1, 0, 0)]"
  let ?b' = "?a1\<lparr>mesh := removeTag (setPoint (mesh ?a1) 0 (1, 0, 0)) 0 ''ma_snap''\<rparr>"
  let ?c = "?b'\<lparr>mesh := destroyTag (mesh ?b') ''ma_snap''\<rparr>"
  have fr: "''ma_snap'' \<notin> dom (doubleTags (mesh ?a))"
    by (simp add: untaggedVertexAdapt_def emptyMesh_def)
  have cand: "snapCandidate ?a v" for v
    by (simp add: snapCandidate_def untaggedVertexAdapt_def emptyMesh_def getFlag_def getSnapPoint_def)
  have tab: "(\<lambda>v. if v \<in> set (vertices (mesh ?a)) \<and> snapCandidate ?a v
                 then Some (getSnapPoint (mesh ?a) v) else None) = [0 \<mapsto> (1, 0, 0)]"
    by (rule ext) (simp add: cand, simp add: untaggedVertexAdapt_def emptyMesh_def getSnapPoint_def)
  have cnt: "length (filter (\<lambda>v. snapCandidate ?a v \<and> isOwned (mesh ?a) v) (vertices (mesh ?a))) = 1"
    by (simp add: cand) (simp add: untaggedVertexAdapt_def emptyMesh_def)
  have plan: "tagVertsToSnap ?a [] = Some (?a1, ''ma_snap'', 1)"
    using tagVertsToSnap_local_eq [OF fr]
    by (simp add: tagVertsToSnap_def PCU_Add_Longs_def tab cnt)
  have tagged: "getDoubleTag (mesh ?a1) 0 ''ma_snap'' = Some (1, 0, 0)"
    by (simp add: getDoubleTag_def)
  have adj: "getAdjacent (mesh ?a1) 0 (getDimension (mesh ?a1)) = [10]"
    by (simp add: tagged_with_def untaggedVertexAdapt_def emptyMesh_def)
  have ok: "\<forall>e \<in> set (getAdjacent (mesh ?a1) 0 (getDimension (mesh ?a1))).
              validLeftOf 2 (?a1\<lparr>mesh := setPoint (mesh ?a1) 0 (1, 0, 0)\<rparr>) e"
    by (simp add: adj validLeftOf_def setPoint_def)
  have snapped: "trySnapping (validLeftOf 2) ?a1 ''ma_snap'' 0 = Some (True, ?b')"
    by (rule trySnapping_succeeds [where isElementValid = "validLeftOf 2", OF tagged ok])
  have before: "getDoubleTag (mesh ?a1) 0 ''ma_snap'' = getDoubleTag (mesh ?a1) 0 ''ma_snap''
                 \<and> getSnapPoint (mesh ?a1) 0 = getSnapPoint (mesh ?a1) 0"
    by simp
  have after: "getPoint (mesh ?c) 0 = getPoint (mesh ?b') 0
                \<and> getSnapPoint (mesh ?c) 0 = getSnapPoint (mesh ?b') 0"
    by (simp add: destroyTag_def getSnapPoint_def)
  have fresh: "''ma_snap'' \<notin> dom (doubleTags (mesh ?c))"
    by (simp add: destroyTag_def)
  have pt: "getPoint (destroyTag (mesh ?b') ''ma_snap'') 0 = (1, 0, 0)"
    by (simp add: destroyTag_def removeTag_def setPoint_def)
  from snapped_vertex_is_not_tagged_again [OF plan tagged before snapped after fresh, of "[]"] pt
  have concl: "getSnapPoint (destroyTag (mesh ?b') ''ma_snap'') 0 = (1, 0, 0) \<and>
         (\<exists>c' n'. tagVertsToSnap ?c [] = Some (c', ''ma_snap'', n')
            \<and> getDoubleTag (mesh c') 0 ''ma_snap'' = None)"
    by simp
  from fresh have fresh': "''ma_snap'' \<notin> dom (doubleTags (destroyTag (mesh ?b') ''ma_snap''))"
    by simp
  show ?thesis
    using plan tagged snapped fresh' concl pt by blast
qed

lemma snap_twice_eval: 
  "(case snap validBothLeft collapseDigger twoVertexAdapt of None \<Rightarrow> None
   | Some (a1, r1) \<Rightarrow> (case snap validBothLeft collapseDigger a1 of None \<Rightarrow> None
      | Some (a2, r2) \<Rightarrow> Some (getPoint (mesh a1) 1, r1, getPoint (mesh a2) 1, r2)))
   = Some ((0, 0, 0), Some (1, 2), (1, 0, 0), Some (1, 1))"
  by code_simp

text \<open>
  Claim C5 as stated fails: a second run of \<^verbatim>\<open>snap\<close> can change the mesh. On
  \<open>twoVertexAdapt\<close> neither vertex can be snapped without digging. With digging, the
  Digger digs at vertex \<open>0\<close> and removes the element, and vertex \<open>0\<close> snaps; at vertex
  \<open>1\<close> the Digger fails, and a round with digging tries no snap after a failed dig. So
  the first run ends with vertex \<open>1\<close> at the origin (snapped 1 of 2). The second run
  tags vertex \<open>1\<close> again and its first round, without digging, snaps it to \<open>(1, 0, 0)\<close>
  (snapped 1 of 1).
\<close>

theorem snap_twice_counterexample:
  "\<exists>a1 a2. snap validBothLeft collapseDigger twoVertexAdapt = Some (a1, Some (1, 2))
     \<and> snap validBothLeft collapseDigger a1 = Some (a2, Some (1, 1))
     \<and> getPoint (mesh a1) 1 = (0, 0, 0) \<and> getPoint (mesh a2) 1 = (1, 0, 0)"
  using snap_twice_eval by (auto split: option.splits prod.splits)



section \<open>Properties of the ghost plan\<close>

lemma set_Parts_insert [simp]: "set (Parts_insert x xs) = insert x (set xs)"
  by (auto simp: Parts_insert_def set_insort_key)

lemma getIntTag_setIntTag:
  "t \<in> dom (intTags m) \<Longrightarrow>
   getIntTag (setIntTag m e t x) e' t = (if e' = e then Some x else getIntTag m e' t)"
  by (auto simp: getIntTag_def setIntTag_def split: option.splits)

lemma destinations_eq:
  "destinations (m, g) e =
     (case getIntTag m e (parts_index_tag g) of None \<Rightarrow> {}
      | Some i \<Rightarrow> if 0 \<le> i \<and> i < int (length (parts_vec g (entityDimension m e)))
                  then set (parts_vec g (entityDimension m e) ! nat i) else {})"
  by (simp add: destinations_def Ghosting_sending_def split: option.splits)

lemma Ghosting_send_old:
  assumes ok: "plan_ok (m, g)" and tag: "getIntTag m e (parts_index_tag g) = Some i"
  shows "Ghosting_send (m, g) e to =
           Some (m, g\<lparr>parts_vec := (parts_vec g)(entityDimension m e :=
                    (parts_vec g (entityDimension m e))
                      [nat i := Parts_insert to (parts_vec g (entityDimension m e) ! nat i)])\<rparr>)"
proof -
  from ok tag have "0 \<le> i" "i < int (length (parts_vec g (entityDimension m e)))"
    unfolding plan_ok_def by auto
  then show ?thesis using tag
    by (auto simp: Ghosting_send_def Let_def hasIntTag_def)
qed

lemma Ghosting_send_new:
  assumes tag: "getIntTag m e (parts_index_tag g) = None"
  shows "Ghosting_send (m, g) e to =
           Some (setIntTag m e (parts_index_tag g) (int (length (parts_vec g (entityDimension m e)))),
                 g\<lparr>parts_vec := (parts_vec g)(entityDimension m e :=
                      parts_vec g (entityDimension m e) @ [[to]])\<rparr>)"
  using tag by (simp add: Ghosting_send_def Let_def hasIntTag_def Parts_insert_def)

lemma setIntTag_fields [simp]:
  "entityDimension (setIntTag m e t x) = entityDimension m"
  "entities (setIntTag m e t x) = entities m"
  "dom (intTags (setIntTag m e t x)) = dom (intTags m)"
  by (auto simp: setIntTag_def split: option.splits)

lemma Ghosting_send_step:
  assumes ok: "plan_ok (m, g)"
  shows "\<exists>m' g'. Ghosting_send (m, g) e to = Some (m', g') \<and> plan_ok (m', g') \<and>
           (\<forall>e'. destinations (m', g') e' =
                 (if e' = e then insert to (destinations (m, g) e) else destinations (m, g) e')) \<and>
           entities m' = entities m \<and> ghost_dim g' = ghost_dim g"
proof (cases "getIntTag m e (parts_index_tag g)")
  case None
  let ?t = "parts_index_tag g"
  let ?d = "entityDimension m e"
  let ?n = "int (length (parts_vec g ?d))"
  let ?m' = "setIntTag m e ?t ?n"
  let ?g' = "g\<lparr>parts_vec := (parts_vec g)(?d := parts_vec g ?d @ [[to]])\<rparr>"
  from ok have dom: "?t \<in> dom (intTags m)" by (simp add: plan_ok_def)
  have run: "Ghosting_send (m, g) e to = Some (?m', ?g')" by (rule Ghosting_send_new [OF None])
  have tag': "getIntTag ?m' e' ?t = (if e' = e then Some ?n else getIntTag m e' ?t)" for e'
    by (rule getIntTag_setIntTag [OF dom])
  have rng: "0 \<le> i \<and> i < int (length (parts_vec g (entityDimension m e')))"
    if "getIntTag m e' ?t = Some i" for e' i
    using ok that unfolding plan_ok_def by auto
  have inj: "e1 = e2" if "getIntTag m e1 ?t = Some i" "getIntTag m e2 ?t = Some i"
      "entityDimension m e1 = entityDimension m e2" for e1 e2 i
    using ok that unfolding plan_ok_def by auto
  have ok': "plan_ok (?m', ?g')"
    unfolding plan_ok_def
  proof (intro conjI allI impI)
    show "parts_index_tag (snd (?m', ?g')) \<in> dom (intTags (fst (?m', ?g')))"
      using dom by simp
  next
    fix e' i assume "getIntTag (fst (?m', ?g')) e' (parts_index_tag (snd (?m', ?g'))) = Some i"
    then have "(if e' = e then Some ?n else getIntTag m e' ?t) = Some i" by (simp add: tag')
    then show "0 \<le> i" using rng [of e' i] by (auto split: if_splits)
  next
    fix e' i assume "getIntTag (fst (?m', ?g')) e' (parts_index_tag (snd (?m', ?g'))) = Some i"
    then have "(if e' = e then Some ?n else getIntTag m e' ?t) = Some i" by (simp add: tag')
    then show "i < int (length (parts_vec (snd (?m', ?g')) (entityDimension (fst (?m', ?g')) e')))"
      using rng [of e' i] by (auto split: if_splits)
  next
    fix e1 e2 i
    assume "getIntTag (fst (?m', ?g')) e1 (parts_index_tag (snd (?m', ?g'))) = Some i \<and>
       getIntTag (fst (?m', ?g')) e2 (parts_index_tag (snd (?m', ?g'))) = Some i \<and>
       entityDimension (fst (?m', ?g')) e1 = entityDimension (fst (?m', ?g')) e2"
    then have a: "(if e1 = e then Some ?n else getIntTag m e1 ?t) = Some i"
      and b: "(if e2 = e then Some ?n else getIntTag m e2 ?t) = Some i"
      and c: "entityDimension m e1 = entityDimension m e2"
      by (simp_all add: tag')
    show "e1 = e2"
    proof (cases "e1 = e"; cases "e2 = e")
      assume "e1 = e" "e2 \<noteq> e"
      with a b c rng [of e2 i] show ?thesis by auto
    next
      assume "e1 \<noteq> e" "e2 = e"
      with a b c rng [of e1 i] show ?thesis by auto
    next
      assume "e1 \<noteq> e" "e2 \<noteq> e"
      with a b c inj [of e1 i e2] show ?thesis by auto
    qed simp
  qed
  have dest: "destinations (?m', ?g') e' =
                 (if e' = e then insert to (destinations (m, g) e) else destinations (m, g) e')" for e'
  proof (cases "e' = e")
    case True
    then show ?thesis using None by (simp add: destinations_eq tag')
  next
    case False
    show ?thesis
    proof (cases "getIntTag m e' ?t")
      case None
      then show ?thesis using False by (simp add: destinations_eq tag')
    next
      case (Some j)
      with rng [of e' j] False show ?thesis
        by (auto simp add: destinations_eq tag' nth_append)
    qed
  qed
  show ?thesis using run ok' dest by simp
next
  case (Some i)
  let ?t = "parts_index_tag g"
  let ?d = "entityDimension m e"
  let ?g' = "g\<lparr>parts_vec := (parts_vec g)(?d :=
                    (parts_vec g ?d)[nat i := Parts_insert to (parts_vec g ?d ! nat i)])\<rparr>"
  have run: "Ghosting_send (m, g) e to = Some (m, ?g')" by (rule Ghosting_send_old [OF ok Some])
  have rng: "0 \<le> j \<and> j < int (length (parts_vec g (entityDimension m e')))"
    if "getIntTag m e' ?t = Some j" for e' j
    using ok that unfolding plan_ok_def by auto
  have inj: "e1 = e2" if "getIntTag m e1 ?t = Some j" "getIntTag m e2 ?t = Some j"
      "entityDimension m e1 = entityDimension m e2" for e1 e2 j
    using ok that unfolding plan_ok_def by auto
  have len: "length (parts_vec ?g' k) = length (parts_vec g k)" for k
    by simp
  have ok': "plan_ok (m, ?g')"
    unfolding plan_ok_def fst_conv snd_conv
  proof (intro conjI allI impI)
    show "parts_index_tag ?g' \<in> dom (intTags m)" using ok by (simp add: plan_ok_def)
  next
    fix e' j assume "getIntTag m e' (parts_index_tag ?g') = Some j"
    then have "getIntTag m e' ?t = Some j" by simp
    from rng [OF this] show "0 \<le> j" by simp
  next
    fix e' j assume "getIntTag m e' (parts_index_tag ?g') = Some j"
    then have "getIntTag m e' ?t = Some j" by simp
    from rng [OF this] show "j < int (length (parts_vec ?g' (entityDimension m e')))"
      unfolding len by simp
  next
    fix e1 e2 j
    assume "getIntTag m e1 (parts_index_tag ?g') = Some j \<and>
       getIntTag m e2 (parts_index_tag ?g') = Some j \<and>
       entityDimension m e1 = entityDimension m e2"
    then show "e1 = e2" using inj [of e1 j e2] by simp
  qed
  have dest: "destinations (m, ?g') e' =
                 (if e' = e then insert to (destinations (m, g) e) else destinations (m, g) e')" for e'
  proof (cases "e' = e")
    case True
    from rng [OF Some] have "nat i < length (parts_vec g ?d)" by linarith
    then show ?thesis using True Some rng [of e i] by (simp add: destinations_eq)
  next
    case False
    show ?thesis
    proof (cases "getIntTag m e' ?t")
      case None
      then show ?thesis using False by (simp add: destinations_eq)
    next
      case (Some j)
      have "j \<noteq> i" if "entityDimension m e' = ?d"
        using inj [of e' j e] that False Some \<open>getIntTag m e ?t = Some i\<close> by auto
      then have "nat j \<noteq> nat i" if "entityDimension m e' = ?d"
        using that rng [OF Some] rng [OF \<open>getIntTag m e ?t = Some i\<close>] by linarith
      with Some rng [of e' j] rng [of e i] \<open>getIntTag m e ?t = Some i\<close> False show ?thesis
        by (auto simp add: destinations_eq)
    qed
  qed
  show ?thesis using run ok' dest by simp
qed

lemma Ghosting_send_each_steps:
  assumes ok: "plan_ok (m, g)"
  shows "\<exists>m' g'. Ghosting_send_each (m, g) es to = Some (m', g') \<and> plan_ok (m', g') \<and>
           (\<forall>e'. destinations (m', g') e' =
                 (if e' \<in> set es then insert to (destinations (m, g) e') else destinations (m, g) e')) \<and>
           entities m' = entities m \<and> ghost_dim g' = ghost_dim g"
  using ok
proof (induction es arbitrary: m g)
  case Nil
  then show ?case by simp
next
  case (Cons e es)
  from Ghosting_send_step [OF Cons.prems, of e to]
  obtain m1 g1 where s: "Ghosting_send (m, g) e to = Some (m1, g1)" and ok1: "plan_ok (m1, g1)"
    and d1: "\<And>e'. destinations (m1, g1) e' =
                 (if e' = e then insert to (destinations (m, g) e) else destinations (m, g) e')"
    and f1: "entities m1 = entities m" "ghost_dim g1 = ghost_dim g"
    by blast
  from Cons.IH [OF ok1]
  obtain m2 g2 where r: "Ghosting_send_each (m1, g1) es to = Some (m2, g2)" and ok2: "plan_ok (m2, g2)"
    and d2: "\<And>e'. destinations (m2, g2) e' =
                 (if e' \<in> set es then insert to (destinations (m1, g1) e') else destinations (m1, g1) e')"
    and f2: "entities m2 = entities m1" "ghost_dim g2 = ghost_dim g1"
    by blast
  have "Ghosting_send_each (m, g) (e # es) to = Some (m2, g2)" using s r by simp
  moreover have "destinations (m2, g2) e' =
      (if e' \<in> set (e # es) then insert to (destinations (m, g) e') else destinations (m, g) e')" for e'
    by (auto simp: d2 d1)
  ultimately show ?case using ok2 f1 f2 by simp
qed

lemma emptyPlan_ok: "plan_ok (twoVertexPMesh, emptyPlan)"
  by (simp add: plan_ok_def twoVertexPMesh_def emptyPlan_def emptyPMesh_def getIntTag_def)

lemma emptyPlan_destinations: "destinations (twoVertexPMesh, emptyPlan) e = {}"
  by (simp add: destinations_eq twoVertexPMesh_def emptyPlan_def emptyPMesh_def getIntTag_def)


text \<open>
  Claim C6, as amended. On a well-formed plan: the bulk \<^verbatim>\<open>send(to)\<close> elides the send to
  the local part (with \<open>to = self\<close> it changes nothing), and for another part it adds
  \<open>to\<close> to the destination set of every entity of the ghost dimension and nothing else, so
  it never adds the local part id to a destination set. The per-entity \<^verbatim>\<open>send(e, to)\<close>
  adds \<open>to\<close> to the destination set of \<open>e\<close>, whatever \<open>to\<close> is, and leaves the other
  destination sets as they are.
\<close>

theorem Ghosting_send_destinations:
  assumes ok: "plan_ok (m, g)"
  shows "Ghosting_send_all self (m, g) self = Some (m, g) \<and>
         (\<exists>m' g'. Ghosting_send (m, g) e to = Some (m', g') \<and> plan_ok (m', g') \<and>
            (\<forall>e'. destinations (m', g') e' =
                    (if e' = e then insert to (destinations (m, g) e) else destinations (m, g) e'))) \<and>
         (to \<noteq> self \<longrightarrow>
            (\<exists>m' g'. Ghosting_send_all self (m, g) to = Some (m', g') \<and> plan_ok (m', g') \<and>
               (\<forall>e'. destinations (m', g') e' =
                       (if e' \<in> set (entities m (ghost_dim g))
                        then insert to (destinations (m, g) e') else destinations (m, g) e')) \<and>
               (\<forall>e'. self \<in> destinations (m', g') e' \<longleftrightarrow> self \<in> destinations (m, g) e')))"
proof (intro conjI impI)
  show "Ghosting_send_all self (m, g) self = Some (m, g)"
    by (simp add: Ghosting_send_all_def)
next
  from Ghosting_send_step [OF ok, of e to]
  show "\<exists>m' g'. Ghosting_send (m, g) e to = Some (m', g') \<and> plan_ok (m', g') \<and>
            (\<forall>e'. destinations (m', g') e' =
                    (if e' = e then insert to (destinations (m, g) e) else destinations (m, g) e'))"
    by blast
next
  assume ne: "to \<noteq> self"
  from Ghosting_send_each_steps [OF ok, of "entities m (ghost_dim g)" to]
  obtain m' g' where r: "Ghosting_send_each (m, g) (entities m (ghost_dim g)) to = Some (m', g')"
    and ok': "plan_ok (m', g')"
    and d: "\<And>e'. destinations (m', g') e' =
                 (if e' \<in> set (entities m (ghost_dim g))
                  then insert to (destinations (m, g) e') else destinations (m, g) e')"
    by blast
  have "Ghosting_send_all self (m, g) to = Some (m', g')"
    using ne r by (simp add: Ghosting_send_all_def)
  moreover have "self \<in> destinations (m', g') e' \<longleftrightarrow> self \<in> destinations (m, g) e'" for e'
    using ne by (auto simp: d)
  ultimately show "\<exists>m' g'. Ghosting_send_all self (m, g) to = Some (m', g') \<and> plan_ok (m', g') \<and>
               (\<forall>e'. destinations (m', g') e' =
                       (if e' \<in> set (entities m (ghost_dim g))
                        then insert to (destinations (m, g) e') else destinations (m, g) e')) \<and>
               (\<forall>e'. self \<in> destinations (m', g') e' \<longleftrightarrow> self \<in> destinations (m, g) e')"
    using ok' d by blast
qed



theorem Ghosting_send_destinations_witness:
  "plan_ok (twoVertexPMesh, emptyPlan)
   \<and> Ghosting_send_all 0 (twoVertexPMesh, emptyPlan) 0 = Some (twoVertexPMesh, emptyPlan)
   \<and> (\<exists>m' g'. Ghosting_send (twoVertexPMesh, emptyPlan) 7 5 = Some (m', g')
         \<and> destinations (m', g') 7 = {5} \<and> destinations (m', g') 8 = {})
   \<and> (\<exists>m' g'. Ghosting_send_all 0 (twoVertexPMesh, emptyPlan) 5 = Some (m', g')
         \<and> destinations (m', g') 7 = {5} \<and> destinations (m', g') 8 = {5}
         \<and> destinations (m', g') 9 = {})"
proof -
  have ents: "entities twoVertexPMesh (ghost_dim emptyPlan) = [7, 8]"
    by (simp add: twoVertexPMesh_def emptyPlan_def emptyPMesh_def)
  note inst = Ghosting_send_destinations [OF emptyPlan_ok, of 0 7 5]
  from inst have a: "Ghosting_send_all 0 (twoVertexPMesh, emptyPlan) 0 = Some (twoVertexPMesh, emptyPlan)"
    by (rule conjunct1)
  from inst obtain m1 g1 where b: "Ghosting_send (twoVertexPMesh, emptyPlan) 7 5 = Some (m1, g1)"
    and b': "\<And>e'. destinations (m1, g1) e' =
                    (if e' = 7 then insert 5 (destinations (twoVertexPMesh, emptyPlan) 7)
                     else destinations (twoVertexPMesh, emptyPlan) e')"
    by blast
  from inst obtain m2 g2 where c: "Ghosting_send_all 0 (twoVertexPMesh, emptyPlan) 5 = Some (m2, g2)"
    and c': "\<And>e'. destinations (m2, g2) e' =
                       (if e' \<in> set (entities twoVertexPMesh (ghost_dim emptyPlan))
                        then insert 5 (destinations (twoVertexPMesh, emptyPlan) e')
                        else destinations (twoVertexPMesh, emptyPlan) e')"
    by auto
  have b7: "destinations (m1, g1) 7 = {5}" and b8: "destinations (m1, g1) 8 = {}"
    by (simp_all add: b' emptyPlan_destinations)
  have c7: "destinations (m2, g2) 7 = {5}" and c8: "destinations (m2, g2) 8 = {5}"
    and c9: "destinations (m2, g2) 9 = {}"
    by (simp_all add: c' ents emptyPlan_destinations)
  show ?thesis using emptyPlan_ok a b b7 b8 c c7 c8 c9 by blast
qed


lemma tvp_tag: "getIntTag twoVertexPMesh e ''_parts_index_'' = None"
  by (simp add: twoVertexPMesh_def emptyPMesh_def getIntTag_def)

lemma send_self_eval:
  "Ghosting_send (twoVertexPMesh, emptyPlan) 7 0 =
     Some (setIntTag twoVertexPMesh 7 ''_parts_index_'' 0,
           emptyPlan\<lparr>parts_vec := (parts_vec emptyPlan)(0 := [[0]])\<rparr>)"
proof -
  have t: "getIntTag twoVertexPMesh 7 (parts_index_tag emptyPlan) = None"
    by (simp add: emptyPlan_def tvp_tag)
  have d: "entityDimension twoVertexPMesh 7 = 0" by (simp add: twoVertexPMesh_def emptyPMesh_def)
  have v: "parts_vec emptyPlan 0 = []" by (simp add: emptyPlan_def)
  have p: "parts_index_tag emptyPlan = ''_parts_index_''" by (simp add: emptyPlan_def)
  show ?thesis using Ghosting_send_new [OF t, of 0] by (simp add: d v p)
qed

text \<open>
  Claim C6 as stated fails for the per-entity \<^verbatim>\<open>send(e, to)\<close>: its test against the local
  part id is commented out. On the process with part id 0, sending vertex \<open>7\<close> to part 0
  puts 0 into the destination set of the vertex.
\<close>

theorem Ghosting_send_self_counterexample:
  "\<exists>m' g'. Ghosting_send (twoVertexPMesh, emptyPlan) 7 0 = Some (m', g')
     \<and> Ghosting_sending (m', g') 7 0 = Some [0] \<and> 0 \<in> destinations (m', g') 7"
proof -
  have dom: "''_parts_index_'' \<in> dom (intTags twoVertexPMesh)"
    by (simp add: twoVertexPMesh_def emptyPMesh_def)
  have t: "getIntTag (setIntTag twoVertexPMesh 7 ''_parts_index_'' 0) 7 ''_parts_index_'' = Some 0"
    using getIntTag_setIntTag [OF dom, of 7 0 7] by simp
  have p: "parts_index_tag emptyPlan = ''_parts_index_''" by (simp add: emptyPlan_def)
  have s: "Ghosting_sending (setIntTag twoVertexPMesh 7 ''_parts_index_'' 0,
           emptyPlan\<lparr>parts_vec := (parts_vec emptyPlan)(0 := [[0]])\<rparr>) 7 0 = Some [0]"
    by (simp add: Ghosting_sending_def t p)
  have d: "entityDimension twoVertexPMesh 7 = 0" by (simp add: twoVertexPMesh_def emptyPMesh_def)
  have "0 \<in> destinations (setIntTag twoVertexPMesh 7 ''_parts_index_'' 0,
           emptyPlan\<lparr>parts_vec := (parts_vec emptyPlan)(0 := [[0]])\<rparr>) 7"
    using s by (simp add: destinations_def d)
  with send_self_eval s show ?thesis by blast
qed


section \<open>Properties of the send pass\<close>

lemma set_fold_Parts_insert: "set (fold Parts_insert xs ys) = set xs \<union> set ys"
  by (induction xs arbitrary: ys) auto

lemma set_set_subtract: "set (set_subtract A B C) = (set A - set B) \<union> set C"
  by (induction A arbitrary: C) auto

lemma ghost_sendEntities_Cons:
  assumes entry: "(isShared m e \<longrightarrow> getOwner m e = self) \<longrightarrow>
                    Ghosting_sending (m, g) e entDim \<noteq> None"
    and consistent: "\<not> isShared m e \<longrightarrow> getRemotes m e = []" "\<not> isGhosted m e \<longrightarrow> getGhosts m e = []"
    and rest: "ghost_sendEntities self (m, g) entDim es tags = Some msgs"
  shows "\<exists>here. ghost_sendEntities self (m, g) entDim (e # es) tags = Some (here @ msgs) \<and>
           (\<forall>q e' td. (q, e', td) \<in> set here \<longleftrightarrow>
              (e' = e \<and> td = packTags m e tags \<and> (isShared m e \<longrightarrow> getOwner m e = self) \<and>
               (\<exists>ds. Ghosting_sending (m, g) e entDim = Some ds \<and> q \<in> set ds) \<and>
               q \<notin> fst ` set (getRemotes m e) \<and> q \<noteq> self \<and>
               q \<notin> fst ` set (getGhosts m e)))"
proof (cases "isShared m e \<and> self \<noteq> getOwner m e")
  case True
  then have "ghost_sendEntities self (m, g) entDim (e # es) tags = Some ([] @ msgs)"
    using rest by simp
  moreover have "\<forall>q e' td. (q, e', td) \<in> set [] \<longleftrightarrow>
              (e' = e \<and> td = packTags m e tags \<and> (isShared m e \<longrightarrow> getOwner m e = self) \<and>
               (\<exists>ds. Ghosting_sending (m, g) e entDim = Some ds \<and> q \<in> set ds) \<and>
               q \<notin> fst ` set (getRemotes m e) \<and> q \<noteq> self \<and>
               q \<notin> fst ` set (getGhosts m e))"
    using True by auto
  ultimately show ?thesis by blast
next
  case False
  with entry obtain ds where entry: "Ghosting_sending (m, g) e entDim = Some ds" by auto
  define res_shared where "res_shared =
              (if isShared m e
               then Parts_insert self (fold Parts_insert (map fst (getRemotes m e)) [])
               else [])"
  define res_parts where "res_parts =
              (if isGhosted m e
               then fold Parts_insert (map fst (getGhosts m e)) res_shared
               else res_shared)"
  define temp where "temp = set_subtract (fold Parts_insert ds []) res_parts []"
  define here where "here = map (\<lambda>piter. packEntity m piter e tags) (filter (\<lambda>piter. piter \<noteq> self) temp)"
  have res: "set res_parts = fst ` set (getRemotes m e) \<union> (if isShared m e then {self} else {})
                \<union> fst ` set (getGhosts m e)"
    using consistent by (auto simp: res_parts_def res_shared_def set_fold_Parts_insert)
  have temp: "set temp = set ds - set res_parts"
    by (simp add: temp_def set_set_subtract set_fold_Parts_insert)
  have step: "ghost_sendEntities self (m, g) entDim (e # es) tags =
                (if length temp = 0 then ghost_sendEntities self (m, g) entDim es tags
                 else map_option (\<lambda>rest. here @ rest) (ghost_sendEntities self (m, g) entDim es tags))"
    using False entry
    by (auto simp add: Let_def temp_def res_parts_def res_shared_def here_def)
  have run: "ghost_sendEntities self (m, g) entDim (e # es) tags = Some (here @ msgs)"
  proof (cases "temp = []")
    case True
    then have "here = []" by (simp add: here_def)
    with True rest show ?thesis unfolding step by simp
  next
    case nonempty: False
    with rest show ?thesis unfolding step by simp
  qed
  have "(q, e', td) \<in> set here \<longleftrightarrow>
              (e' = e \<and> td = packTags m e tags \<and> (isShared m e \<longrightarrow> getOwner m e = self) \<and>
               (\<exists>ds. Ghosting_sending (m, g) e entDim = Some ds \<and> q \<in> set ds) \<and>
               q \<notin> fst ` set (getRemotes m e) \<and> q \<noteq> self \<and>
               q \<notin> fst ` set (getGhosts m e))" for q e' td
    using False entry by (auto simp: here_def packEntity_def temp res)
  with run show ?thesis by blast
qed


lemma sendPlan_sending:
  "Ghosting_sending (sendMesh, sendPlan) 7 0 = Some [1, 2]"
  "Ghosting_sending (sendMesh, sendPlan) 8 0 = Some [0, 1, 2, 3]"
  "Ghosting_sending (sendMesh, sendPlan) 9 0 = Some [2]"
  by (simp_all add: Ghosting_sending_def getIntTag_def sendMesh_def sendPlan_def emptyPMesh_def)

lemma sendMesh_fields:
  "isShared sendMesh e = (e = 8 \<or> e = 9)"
  "isGhosted sendMesh e = (e = 8)"
  "getRemotes sendMesh e = (if e = 8 then [(1, 80)] else if e = 9 then [(1, 90)] else [])"
  "getGhosts sendMesh e = (if e = 8 then [(2, 81)] else [])"
  "getOwner sendMesh e = (if e = 9 then 1 else 0)"
  by (simp_all add: sendMesh_def emptyPMesh_def)

lemma sendMesh_packTags:
  "packTags sendMesh 7 [''_parts_index_''] = [(''_parts_index_'', 0)]"
  "packTags sendMesh 8 [''_parts_index_''] = [(''_parts_index_'', 1)]"
  by (simp_all add: packTags_def getIntTag_def sendMesh_def emptyPMesh_def)


text \<open>
  Claim C7. Let every entity of the list that is not shared, or is owned by this part,
  have an entry in the plan, and let the mesh be
  consistent on them (an entity that is not shared has no remote copies, one that is not
  ghosted has no ghost copies). Then \<^verbatim>\<open>ghost_sendEntities\<close> returns, and it packs the
  entity \<open>e\<close> for the part \<open>q\<close> exactly when \<open>e\<close> is in the list, \<open>e\<close> is not shared or this
  part is its owner, \<open>q\<close> is in the destination set that the plan gives for \<open>e\<close>, and \<open>q\<close>
  is none of the parts of the remote copies of \<open>e\<close>, the local part, or the parts of the
  ghost copies of \<open>e\<close>; each message carries the tags of the entity.
\<close>

theorem ghost_sendEntities_destinations:
  assumes entries: "\<forall>e \<in> set ents. (isShared m e \<longrightarrow> getOwner m e = self) \<longrightarrow>
                                 Ghosting_sending (m, g) e entDim \<noteq> None"
    and consistent: "\<forall>e \<in> set ents. (\<not> isShared m e \<longrightarrow> getRemotes m e = []) \<and>
                                    (\<not> isGhosted m e \<longrightarrow> getGhosts m e = [])"
  shows "\<exists>msgs. ghost_sendEntities self (m, g) entDim ents tags = Some msgs \<and>
           (\<forall>q e td. (q, e, td) \<in> set msgs \<longleftrightarrow>
              (e \<in> set ents \<and> td = packTags m e tags \<and>
               (isShared m e \<longrightarrow> getOwner m e = self) \<and>
               (\<exists>ds. Ghosting_sending (m, g) e entDim = Some ds \<and> q \<in> set ds) \<and>
               q \<notin> fst ` set (getRemotes m e) \<and> q \<noteq> self \<and>
               q \<notin> fst ` set (getGhosts m e)))"
  using assms
proof (induction ents)
  case Nil
  show ?case by simp
next
  case (Cons e es)
  from Cons.prems have "\<forall>e \<in> set es. (isShared m e \<longrightarrow> getOwner m e = self) \<longrightarrow>
                                 Ghosting_sending (m, g) e entDim \<noteq> None"
    and "\<forall>e \<in> set es. (\<not> isShared m e \<longrightarrow> getRemotes m e = []) \<and>
                       (\<not> isGhosted m e \<longrightarrow> getGhosts m e = [])"
    by simp_all
  from Cons.IH [OF this]
  obtain msgs where rest: "ghost_sendEntities self (m, g) entDim es tags = Some msgs"
    and msgs: "\<And>q e td. (q, e, td) \<in> set msgs \<longleftrightarrow>
              (e \<in> set es \<and> td = packTags m e tags \<and>
               (isShared m e \<longrightarrow> getOwner m e = self) \<and>
               (\<exists>ds. Ghosting_sending (m, g) e entDim = Some ds \<and> q \<in> set ds) \<and>
               q \<notin> fst ` set (getRemotes m e) \<and> q \<noteq> self \<and>
               q \<notin> fst ` set (getGhosts m e))"
    by blast
  from Cons.prems have entry: "(isShared m e \<longrightarrow> getOwner m e = self) \<longrightarrow>
                                 Ghosting_sending (m, g) e entDim \<noteq> None"
    by simp
  from Cons.prems have c: "\<not> isShared m e \<longrightarrow> getRemotes m e = []" "\<not> isGhosted m e \<longrightarrow> getGhosts m e = []"
    by simp_all
  from ghost_sendEntities_Cons [OF entry c rest]
  obtain here where run: "ghost_sendEntities self (m, g) entDim (e # es) tags = Some (here @ msgs)"
    and here: "\<And>q e' td. (q, e', td) \<in> set here \<longleftrightarrow>
              (e' = e \<and> td = packTags m e tags \<and> (isShared m e \<longrightarrow> getOwner m e = self) \<and>
               (\<exists>ds. Ghosting_sending (m, g) e entDim = Some ds \<and> q \<in> set ds) \<and>
               q \<notin> fst ` set (getRemotes m e) \<and> q \<noteq> self \<and>
               q \<notin> fst ` set (getGhosts m e))"
    by blast
  have "(q, e', td) \<in> set (here @ msgs) \<longleftrightarrow>
              (e' \<in> set (e # es) \<and> td = packTags m e' tags \<and>
               (isShared m e' \<longrightarrow> getOwner m e' = self) \<and>
               (\<exists>ds. Ghosting_sending (m, g) e' entDim = Some ds \<and> q \<in> set ds) \<and>
               q \<notin> fst ` set (getRemotes m e') \<and> q \<noteq> self \<and>
               q \<notin> fst ` set (getGhosts m e'))" for q e' td
    unfolding set_append Un_iff here msgs by auto
  with run show ?case by blast
qed

theorem ghost_sendEntities_destinations_witness:
  "Ghosting_sending (sendMesh, sendPlan) 7 0 = Some [1, 2]
   \<and> Ghosting_sending (sendMesh, sendPlan) 8 0 = Some [0, 1, 2, 3]
   \<and> Ghosting_sending (sendMesh, sendPlan) 9 0 = Some [2]
   \<and> (\<exists>msgs. ghost_sendEntities 0 (sendMesh, sendPlan) 0 [7, 8, 9] [''_parts_index_''] = Some msgs
        \<and> (1, 7, [(''_parts_index_'', 0)]) \<in> set msgs
        \<and> (2, 7, [(''_parts_index_'', 0)]) \<in> set msgs
        \<and> (3, 8, [(''_parts_index_'', 1)]) \<in> set msgs
        \<and> (0, 8, [(''_parts_index_'', 1)]) \<notin> set msgs
        \<and> (1, 8, [(''_parts_index_'', 1)]) \<notin> set msgs
        \<and> (2, 8, [(''_parts_index_'', 1)]) \<notin> set msgs
        \<and> (2, 9, [(''_parts_index_'', 2)]) \<notin> set msgs)"
proof -
  have entries: "\<forall>e \<in> set [7, 8, 9]. (isShared sendMesh e \<longrightarrow> getOwner sendMesh e = 0) \<longrightarrow>
                    Ghosting_sending (sendMesh, sendPlan) e 0 \<noteq> None"
    by (simp add: sendPlan_sending)
  have consistent: "\<forall>e \<in> set [7, 8, 9]. (\<not> isShared sendMesh e \<longrightarrow> getRemotes sendMesh e = []) \<and>
                                    (\<not> isGhosted sendMesh e \<longrightarrow> getGhosts sendMesh e = [])"
    by (simp add: sendMesh_fields)
  from ghost_sendEntities_destinations [OF entries consistent, of "[''_parts_index_'']"]
  obtain msgs where run: "ghost_sendEntities 0 (sendMesh, sendPlan) 0 [7, 8, 9] [''_parts_index_''] = Some msgs"
    and msgs: "\<And>q e td. (q, e, td) \<in> set msgs \<longleftrightarrow>
              (e \<in> set [7, 8, 9] \<and> td = packTags sendMesh e [''_parts_index_''] \<and>
               (isShared sendMesh e \<longrightarrow> getOwner sendMesh e = 0) \<and>
               (\<exists>ds. Ghosting_sending (sendMesh, sendPlan) e 0 = Some ds \<and> q \<in> set ds) \<and>
               q \<notin> fst ` set (getRemotes sendMesh e) \<and> q \<noteq> 0 \<and>
               q \<notin> fst ` set (getGhosts sendMesh e))"
    by blast
  have "(1, 7, [(''_parts_index_'', 0)]) \<in> set msgs"
    "(2, 7, [(''_parts_index_'', 0)]) \<in> set msgs"
    "(3, 8, [(''_parts_index_'', 1)]) \<in> set msgs"
    "(0, 8, [(''_parts_index_'', 1)]) \<notin> set msgs"
    "(1, 8, [(''_parts_index_'', 1)]) \<notin> set msgs"
    "(2, 8, [(''_parts_index_'', 1)]) \<notin> set msgs"
    "(2, 9, [(''_parts_index_'', 2)]) \<notin> set msgs"
    unfolding msgs by (simp_all add: sendPlan_sending sendMesh_fields sendMesh_packTags)
  with run sendPlan_sending show ?thesis by blast
qed


section \<open>Properties of ghost deletion and of the layer checks\<close>






lemma destroy_all_others:
  "intTags (fold (\<lambda>e m'. destroy m' e) es m) = intTags m"
  "getGhosts (fold (\<lambda>e m'. destroy m' e) es m) = getGhosts m"
  by (induction es arbitrary: m) (simp_all add: destroy_def)





lemma getIntTag_deleteGhost [simp]: "getIntTag (deleteGhost m e) = getIntTag m"
  by (rule ext)+ (simp add: getIntTag_def deleteGhost_def)


lemma getIntTag_destroy_all [simp]:
  "getIntTag (fold (\<lambda>e m'. destroy m' e) es m) = getIntTag m"
  by (rule ext)+ (simp add: getIntTag_def destroy_all_others)







lemma le3_cases: "k \<le> 3 \<longleftrightarrow> k = 0 \<or> k = 1 \<or> k = 2 \<or> k = (3::nat)"
  by auto

lemma in_all_ghosts: "e \<in> all_ghosts p \<longleftrightarrow> (\<exists>k\<le>3. e \<in> set (ghost_vec p k))"
  by (auto simp: all_ghosts_def le3_cases)

lemma in_all_ghosted: "e \<in> all_ghosted p \<longleftrightarrow> (\<exists>k\<le>3. e \<in> set (ghosted_vec p k))"
  by (auto simp: all_ghosted_def le3_cases)






subsection \<open>The exchange keeps the registries complete\<close>

text \<open>
  The receive pass and the acknowledgement pass keep the registries complete: an entity
  that \<^verbatim>\<open>unpackGhost\<close> constructs is pushed on \<^verbatim>\<open>ghost_vec\<close>, and an entity whose echo
  \<^verbatim>\<open>setupGhosts\<close> receives is pushed on \<^verbatim>\<open>ghosted_vec\<close> unless it carries the ghosted
  tag already, in which case it has been pushed before. A fresh instance over a mesh
  without ghost copies has complete registries, and complete registries are what the
  deletion of all ghosts asks of the mesh.
\<close>

lemma getIntTag_setIntTag_other:
  "e' \<noteq> e \<Longrightarrow> getIntTag (setIntTag m e t x) e' t' = getIntTag m e' t'"
  by (auto simp: getIntTag_def setIntTag_def split: option.splits)

lemma setIntTag_keeps:
  "entities (setIntTag m e t x) = entities m"
  "getGhosts (setIntTag m e t x) = getGhosts m"
  "entityDimension (setIntTag m e t x) = entityDimension m"
  by (simp_all add: setIntTag_def split: option.splits)

lemma unpackTags_keeps:
  "entities (unpackTags m e td) = entities m"
  "getGhosts (unpackTags m e td) = getGhosts m"
  "entityDimension (unpackTags m e td) = entityDimension m"
  unfolding unpackTags_def
  by (induction td arbitrary: m) (simp_all add: setIntTag_keeps)

lemma unpackTags_other:
  "e' \<noteq> e \<Longrightarrow> getIntTag (unpackTags m e td) e' t = getIntTag m e' t"
  unfolding unpackTags_def
  by (induction td arbitrary: m) (simp_all add: getIntTag_setIntTag_other)

lemma createEntity_fields:
  "entities (createEntity m e d c) k = (if k = d then entities m d @ [e] else entities m k)"
  "entityDimension (createEntity m e d c) e = d"
  "e' \<noteq> e \<Longrightarrow> getGhosts (createEntity m e d c) e' = getGhosts m e'"
  "e' \<noteq> e \<Longrightarrow> getIntTag (createEntity m e d c) e' t = getIntTag m e' t"
  by (auto simp: createEntity_def getIntTag_def split: option.splits)

lemma addGhost_fields:
  "entities (addGhost m e q h) = entities m"
  "entityDimension (addGhost m e q h) = entityDimension m"
  "getIntTag (addGhost m e q h) = getIntTag m"
  "e' \<noteq> e \<Longrightarrow> getGhosts (addGhost m e q h) e' = getGhosts m e'"
  "getGhosts (addGhost m e q h) e \<noteq> []"
  by (auto simp: addGhost_def getIntTag_def fun_eq_iff)

lemma setResidence_fields:
  "entities (setResidence m e r) = entities m"
  "entityDimension (setResidence m e r) = entityDimension m"
  "getIntTag (setResidence m e r) = getIntTag m"
  "getGhosts (setResidence m e r) = getGhosts m"
  by (auto simp: setResidence_def getIntTag_def fun_eq_iff)

lemma typeDimension_le3: "typeDimension ty = Some d \<Longrightarrow> d \<le> 3"
proof -
  assume a: "typeDimension ty = Some d"
  then have "ty < 8" by (simp add: typeDimension_def split: if_splits)
  then consider "ty = 0" | "ty = 1" | "ty = 2" | "ty = 3" | "ty = 4" | "ty = 5" | "ty = 6" | "ty = 7"
    by linarith
  then show ?thesis using a by cases (auto simp: typeDimension_def)
qed

lemma unpack_entity_cases:
  assumes "(if ty = 0 then unpackVertex m c e else unpackNonVertex m ty c e) = Some m1"
  obtains d where "d \<le> 3" "m1 = createEntity m e d c"
  using assms
  by (auto simp: unpackVertex_def unpackNonVertex_def split: if_splits dest: typeDimension_le3)


lemma registered_initially:
  assumes "\<forall>e. getGhosts m e = []"
  shows "registered (pumi_new, m)"
  using assms by (simp add: registered_def pumi_new_def)

lemma unpackGhost_registered:
  assumes reg: "registered (p, m)"
    and run: "unpackGhost (p, m) from msg entity = Some ((p', m'), e')"
  shows "registered (p', m')"
proof -
  note run' = run [unfolded unpackGhost_def fst_conv snd_conv]
  from run' obtain m1 t where
    m1: "(if msg_type msg = 0 then unpackVertex m (msg_model msg) entity
            else unpackNonVertex m (msg_type msg) (msg_model msg) entity) = Some m1"
    and t: "ghost_tag p = Some t"
    by (auto simp: unpackGhost_def Let_def split: option.splits)
  from m1 obtain d where d: "d \<le> 3" and m1': "m1 = createEntity m entity d (msg_model msg)"
    by (rule unpack_entity_cases)
  define m4 where "m4 = addGhost (unpackTags (setResidence m1 entity
                          (Parts_insert from (msg_residence msg))) entity (msg_tags msg))
                          entity from (msg_sender msg)"
  have dim: "entityDimension m4 entity = d"
    by (simp add: m4_def addGhost_fields unpackTags_keeps setResidence_fields m1' createEntity_fields)
  from run' m1 t have p': "p' = p\<lparr>ghost_vec := (ghost_vec p)(d := ghost_vec p d @ [entity])\<rparr>"
    and m': "m' = setIntTag m4 entity t from"
    by (auto simp: Let_def m4_def [symmetric] dim)
  have ents: "entities m' k = (if k = d then entities m d @ [entity] else entities m k)" for k
    by (simp add: m' setIntTag_keeps m4_def addGhost_fields unpackTags_keeps setResidence_fields
          m1' createEntity_fields)
  have ghosts: "getGhosts m' e = getGhosts m e" if "e \<noteq> entity" for e
    using that
    by (simp add: m' setIntTag_keeps m4_def addGhost_fields unpackTags_keeps setResidence_fields
          m1' createEntity_fields)
  have tags: "getIntTag m' e u = getIntTag m e u" if "e \<noteq> entity" for e u
    using that
    by (simp add: m' getIntTag_setIntTag_other m4_def addGhost_fields unpackTags_other
          setResidence_fields m1' createEntity_fields)
  have new: "entity \<in> all_ghosts p'"
    using d by (auto simp: in_all_ghosts p' intro!: exI [of _ d])
  have mono: "set (ghost_vec p k) \<subseteq> set (ghost_vec p' k)" for k
    by (auto simp: p')
  have old1: "all_ghosts p \<subseteq> all_ghosts p'"
    using mono unfolding in_all_ghosts subset_iff by blast
  have old2: "all_ghosted p' = all_ghosted p" "ghosted_tag p' = ghosted_tag p"
    by (simp_all add: all_ghosted_def p')
  show ?thesis
    unfolding registered_def fst_conv snd_conv
  proof (intro allI impI)
    fix k e
    assume a: "e \<in> set (entities m' k) \<and>
        (getGhosts m' e \<noteq> [] \<or> (\<exists>u. ghosted_tag p' = Some u \<and> hasIntTag m' e u))"
    show "e \<in> all_ghosts p' \<union> all_ghosted p'"
    proof (cases "e = entity")
      case True
      with new show ?thesis by simp
    next
      case False
      with a have "e \<in> set (entities m k)" by (auto simp: ents split: if_splits)
      moreover from a False have "getGhosts m e \<noteq> [] \<or> (\<exists>u. ghosted_tag p = Some u \<and> hasIntTag m e u)"
        by (simp add: ghosts tags old2 hasIntTag_def)
      ultimately have "e \<in> all_ghosts p \<union> all_ghosted p"
        using reg unfolding registered_def by auto
      with old1 old2 show ?thesis by auto
    qed
  qed
qed

lemma setupGhosts_receive_registered:
  assumes reg: "registered (p, m)"
    and dim: "entityDimension m (fst (snd x)) \<le> 3"
    and run: "setupGhosts_receive (p, m) x = Some (p', m')"
  shows "registered (p', m')"
proof -
  obtain src entity sender where x: "x = (src, entity, sender)" by (cases x) auto
  define m1 where "m1 = addGhost m entity src sender"
  from run obtain t where t: "ghosted_tag p = Some t"
    by (auto simp: setupGhosts_receive_def Let_def split: option.splits)
  have ents1: "entities m1 = entities m" and dim1: "entityDimension m1 = entityDimension m"
    and tags1: "getIntTag m1 = getIntTag m"
    and ghosts1: "\<And>e. e \<noteq> entity \<Longrightarrow> getGhosts m1 e = getGhosts m e"
    by (simp_all add: m1_def addGhost_fields)
  show ?thesis
  proof (cases "hasIntTag m1 entity t")
    case True
    with run t have r: "p' = p" "m' = m1"
      by (simp_all add: setupGhosts_receive_def Let_def x m1_def)
    show ?thesis
      unfolding registered_def fst_conv snd_conv r
    proof (intro allI impI)
      fix k e
      assume a: "e \<in> set (entities m1 k) \<and>
        (getGhosts m1 e \<noteq> [] \<or> (\<exists>u. ghosted_tag p = Some u \<and> hasIntTag m1 e u))"
      have "getGhosts m e \<noteq> [] \<or> (\<exists>u. ghosted_tag p = Some u \<and> hasIntTag m e u)"
      proof (cases "e = entity")
        case True
        with \<open>hasIntTag m1 entity t\<close> t show ?thesis by (simp add: hasIntTag_def tags1)
      next
        case False
        with a show ?thesis by (simp add: ghosts1 hasIntTag_def tags1)
      qed
      with a reg show "e \<in> all_ghosts p \<union> all_ghosted p"
        unfolding registered_def by (auto simp: ents1)
    qed
  next
    case False
    let ?d = "entityDimension m entity"
    from False run t have r: "p' = p\<lparr>ghosted_vec := (ghosted_vec p)(?d := ghosted_vec p ?d @ [entity])\<rparr>"
      "m' = setIntTag m1 entity t src"
      by (simp_all add: setupGhosts_receive_def Let_def x m1_def [symmetric] dim1)
    have new: "entity \<in> all_ghosted p'"
      using dim by (auto simp: in_all_ghosted r x intro!: exI [of _ ?d])
    have mono: "set (ghosted_vec p k) \<subseteq> set (ghosted_vec p' k)" for k
      by (auto simp: r)
    have old: "all_ghosted p \<subseteq> all_ghosted p'"
      using mono unfolding in_all_ghosted subset_iff by blast
    have same: "all_ghosts p' = all_ghosts p" "ghosted_tag p' = ghosted_tag p"
      by (simp_all add: r all_ghosts_def)
    show ?thesis
      unfolding registered_def fst_conv snd_conv
    proof (intro allI impI)
      fix k e
      assume a: "e \<in> set (entities m' k) \<and>
        (getGhosts m' e \<noteq> [] \<or> (\<exists>u. ghosted_tag p' = Some u \<and> hasIntTag m' e u))"
      show "e \<in> all_ghosts p' \<union> all_ghosted p'"
      proof (cases "e = entity")
        case True
        with new show ?thesis by simp
      next
        case ne: False
        with a have "e \<in> set (entities m k)" by (simp add: r setIntTag_keeps ents1)
        moreover from a ne have "getGhosts m e \<noteq> [] \<or> (\<exists>u. ghosted_tag p = Some u \<and> hasIntTag m e u)"
          by (simp add: r same setIntTag_keeps ghosts1 hasIntTag_def getIntTag_setIntTag_other tags1)
        ultimately have "e \<in> all_ghosts p \<union> all_ghosted p"
          using reg unfolding registered_def by auto
        with old same show ?thesis by auto
      qed
    qed
  qed
qed


lemma setupGhosts_receive_dimension:
  assumes "setupGhosts_receive (p, m) x = Some (p', m')"
  shows "entityDimension m' = entityDimension m"
  using assms
  by (auto simp: setupGhosts_receive_def Let_def addGhost_fields setIntTag_keeps
        split: option.splits if_splits)

lemma ghost_receiveEntities_registered:
  assumes "ghost_receiveEntities pm incoming received = Some (pm', received')"
    and "registered pm"
  shows "registered pm'"
  using assms
proof (induction incoming arbitrary: pm received)
  case Nil
  then show ?case by simp
next
  case (Cons x incoming)
  from Cons.prems(1) obtain pm1 entity where
    u: "unpackGhost pm (fst x) (fst (snd x)) (snd (snd x)) = Some (pm1, entity)"
    and rest: "ghost_receiveEntities pm1 incoming (received @ [entity]) = Some (pm', received')"
    by (auto split: option.splits)
  from u Cons.prems(2) have "registered pm1"
    using unpackGhost_registered [of "fst pm" "snd pm" "fst x" "fst (snd x)" "snd (snd x)"
        "fst pm1" "snd pm1" entity]
    by simp
  with Cons.IH [OF rest] show ?case .
qed

lemma setupGhosts_receive_all_registered:
  assumes "setupGhosts_receive_all pm incoming = Some pm'"
    and "registered pm"
    and "\<forall>x \<in> set incoming. entityDimension (snd pm) (fst (snd x)) \<le> 3"
  shows "registered pm'"
  using assms
proof (induction incoming arbitrary: pm)
  case Nil
  then show ?case by simp
next
  case (Cons x incoming)
  from Cons.prems(1) obtain pm1 where
    s: "setupGhosts_receive pm x = Some pm1"
    and rest: "setupGhosts_receive_all pm1 incoming = Some pm'"
    by (auto split: option.splits)
  from s have s': "setupGhosts_receive (fst pm, snd pm) x = Some (fst pm1, snd pm1)" by simp
  from Cons.prems(2,3) have "registered pm1"
    using setupGhosts_receive_registered [OF _ _ s'] by simp
  moreover have "entityDimension (snd pm1) = entityDimension (snd pm)"
    by (rule setupGhosts_receive_dimension [OF s'])
  with Cons.prems(3) have "\<forall>x \<in> set incoming. entityDimension (snd pm1) (fst (snd x)) \<le> 3"
    by simp
  ultimately show ?case by (rule Cons.IH [OF rest])
qed

lemma setupGhosts_registered:
  assumes "setupGhosts pm received incoming = Some (echo, pm')"
    and "registered pm"
    and "\<forall>x \<in> set incoming. entityDimension (snd pm) (fst (snd x)) \<le> 3"
  shows "registered pm'"
proof -
  from assms(1) have "setupGhosts_receive_all pm incoming = Some pm'"
    by (auto simp: setupGhosts_def split: option.splits)
  then show ?thesis using assms(2,3) by (rule setupGhosts_receive_all_registered)
qed

lemma registered_registry:
  assumes "registered (p, m)"
  shows "\<forall>d e. e \<in> set (entities m d) \<and> getGhosts m e \<noteq> [] \<longrightarrow>
           (\<exists>k\<le>3. e \<in> set (ghost_vec p k) \<or> e \<in> set (ghosted_vec p k))"
proof (intro allI impI)
  fix d e
  assume "e \<in> set (entities m d) \<and> getGhosts m e \<noteq> []"
  with assms have "e \<in> all_ghosts p \<union> all_ghosted p"
    unfolding registered_def by auto
  then show "\<exists>k\<le>3. e \<in> set (ghost_vec p k) \<or> e \<in> set (ghosted_vec p k)"
    by (auto simp: in_all_ghosts in_all_ghosted)
qed



lemma createLayer_not_Returned:
  assumes "peers \<noteq> 1" "num_layer \<noteq> 0"
    "\<not> (brg_dim \<ge> ghost_dim0 \<or> 0 > brg_dim \<or> brg_dim \<ge> pumi_mesh_getDim (snd pm) \<or>
      ghost_dim0 > pumi_mesh_getDim (snd pm) \<or> ghost_dim0 < 1)"
  shows "pumi_ghost_createLayer peers self pm out brg_dim ghost_dim0 num_layer include_copy
           \<noteq> Some (Returned pm' out')"
  using assms
  by (auto simp: pumi_ghost_createLayer_def Let_def split: option.splits)

text \<open>
  Claim C9, as amended. \<^verbatim>\<open>pumi_ghost_createLayer\<close> returns at once, with the instance and
  the mesh as they were and nothing printed, when there is one process or the layer count
  is 0. Otherwise, when the dimensions are invalid (bridge not below ghost, bridge
  negative, bridge not below the mesh dimension, ghost above the mesh dimension, or ghost
  below 1) it returns with the instance and the mesh as they were, and rank 0 prints the
  error line. With more than one process, a layer count of at least 1 and valid
  dimensions it does not return early, whatever the value of \<^verbatim>\<open>include_copy\<close>, which is
  not checked: it creates the tag \<^verbatim>\<open>ghost_check_mark\<close> and a plan of the ghost dimension
  (when these tag names are free).
\<close>

theorem pumi_ghost_createLayer_checks:
  "(peers = 1 \<or> num_layer = 0 \<longrightarrow>
      pumi_ghost_createLayer peers self pm out brg_dim ghost_dim0 num_layer include_copy
        = Some (Returned pm out)) \<and>
   (peers \<noteq> 1 \<and> num_layer \<noteq> 0 \<and>
    (brg_dim \<ge> ghost_dim0 \<or> brg_dim < 0 \<or> brg_dim \<ge> pumi_mesh_getDim (snd pm) \<or>
     ghost_dim0 > pumi_mesh_getDim (snd pm) \<or> ghost_dim0 < 1) \<longrightarrow>
      pumi_ghost_createLayer peers self pm out brg_dim ghost_dim0 num_layer include_copy
        = Some (Returned pm
                  (if self = 0
                   then out @ [''pumi_ghost_createLayer ERROR: invalid bridge/ghost dimension'']
                   else out))) \<and>
   (peers \<noteq> 1 \<and> 1 \<le> num_layer \<and> 0 \<le> brg_dim \<and> brg_dim < ghost_dim0 \<and>
    ghost_dim0 \<le> pumi_mesh_getDim (snd pm) \<longrightarrow>
      (\<forall>pm' out'. pumi_ghost_createLayer peers self pm out brg_dim ghost_dim0 num_layer include_copy
                     \<noteq> Some (Returned pm' out')) \<and>
      (''ghost_check_mark'' \<notin> dom (intTags (snd pm)) \<and> ''_parts_index_'' \<notin> dom (intTags (snd pm)) \<longrightarrow>
         (\<exists>p' m' plan. pumi_ghost_createLayer peers self pm out brg_dim ghost_dim0 num_layer include_copy
                          = Some (Planning (p', m') out ''ghost_check_mark'' plan) \<and>
                        ghost_dim plan = nat ghost_dim0)))"
proof (intro conjI impI allI)
  assume "peers = 1 \<or> num_layer = 0"
  then show "pumi_ghost_createLayer peers self pm out brg_dim ghost_dim0 num_layer include_copy
        = Some (Returned pm out)"
    by (simp add: pumi_ghost_createLayer_def)
next
  assume "peers \<noteq> 1 \<and> num_layer \<noteq> 0 \<and>
    (brg_dim \<ge> ghost_dim0 \<or> brg_dim < 0 \<or> brg_dim \<ge> pumi_mesh_getDim (snd pm) \<or>
     ghost_dim0 > pumi_mesh_getDim (snd pm) \<or> ghost_dim0 < 1)"
  then show "pumi_ghost_createLayer peers self pm out brg_dim ghost_dim0 num_layer include_copy
        = Some (Returned pm
                  (if self = 0
                   then out @ [''pumi_ghost_createLayer ERROR: invalid bridge/ghost dimension'']
                   else out))"
    by (auto simp: pumi_ghost_createLayer_def Let_def)
next
  fix pm' out'
  assume "peers \<noteq> 1 \<and> 1 \<le> num_layer \<and> 0 \<le> brg_dim \<and> brg_dim < ghost_dim0 \<and>
    ghost_dim0 \<le> pumi_mesh_getDim (snd pm)"
  then show "pumi_ghost_createLayer peers self pm out brg_dim ghost_dim0 num_layer include_copy
                     \<noteq> Some (Returned pm' out')"
    by (intro createLayer_not_Returned) auto
next
  assume v: "peers \<noteq> 1 \<and> 1 \<le> num_layer \<and> 0 \<le> brg_dim \<and> brg_dim < ghost_dim0 \<and>
    ghost_dim0 \<le> pumi_mesh_getDim (snd pm)"
    and f: "''ghost_check_mark'' \<notin> dom (intTags (snd pm)) \<and> ''_parts_index_'' \<notin> dom (intTags (snd pm))"
  from f have "\<exists>p' m' plan. Ghosting_new (fst pm, (snd pm)\<lparr>intTags := (intTags (snd pm))(''ghost_check_mark'' \<mapsto> Map.empty)\<rparr>) (nat ghost_dim0)
                 = Some (p', m', plan) \<and> ghost_dim plan = nat ghost_dim0"
    by (auto simp: Ghosting_new_def Let_def createIntTag_def findTag_def)
  with v f show "\<exists>p' m' plan. pumi_ghost_createLayer peers self pm out brg_dim ghost_dim0 num_layer include_copy
                          = Some (Planning (p', m') out ''ghost_check_mark'' plan) \<and>
                        ghost_dim plan = nat ghost_dim0"
    by (auto simp: pumi_ghost_createLayer_def Let_def createIntTag_def)
qed

lemma emptyPMesh_fields:
  "pumi_mesh_getDim emptyPMesh = 3" "intTags emptyPMesh = Map.empty"
  by (simp_all add: emptyPMesh_def)

theorem pumi_ghost_createLayer_checks_witness:
  "pumi_ghost_createLayer 1 0 (pumi_new, emptyPMesh) [] 5 1 2 0
     = Some (Returned (pumi_new, emptyPMesh) [])
   \<and> pumi_ghost_createLayer 2 0 (pumi_new, emptyPMesh) [] 2 1 1 0
     = Some (Returned (pumi_new, emptyPMesh)
               [''pumi_ghost_createLayer ERROR: invalid bridge/ghost dimension''])
   \<and> pumi_ghost_createLayer 2 1 (pumi_new, emptyPMesh) [] 0 4 1 0
     = Some (Returned (pumi_new, emptyPMesh) [])
   \<and> (\<exists>p' m' plan. pumi_ghost_createLayer 2 0 (pumi_new, emptyPMesh) [] 0 3 2 1
          = Some (Planning (p', m') [] ''ghost_check_mark'' plan) \<and> ghost_dim plan = 3)"
proof -
  have A: "pumi_ghost_createLayer 1 0 (pumi_new, emptyPMesh) [] 5 1 2 0
     = Some (Returned (pumi_new, emptyPMesh) [])"
    using pumi_ghost_createLayer_checks [of 1 2 0 "(pumi_new, emptyPMesh)" "[]" 5 1 0] by simp
  have B: "pumi_ghost_createLayer 2 0 (pumi_new, emptyPMesh) [] 2 1 1 0
     = Some (Returned (pumi_new, emptyPMesh)
               [''pumi_ghost_createLayer ERROR: invalid bridge/ghost dimension''])"
    using pumi_ghost_createLayer_checks [of 2 1 0 "(pumi_new, emptyPMesh)" "[]" 2 1 0] by simp
  have C: "pumi_ghost_createLayer 2 1 (pumi_new, emptyPMesh) [] 0 4 1 0
     = Some (Returned (pumi_new, emptyPMesh) [])"
    using pumi_ghost_createLayer_checks [of 2 1 1 "(pumi_new, emptyPMesh)" "[]" 0 4 0]
    by (simp add: emptyPMesh_fields)
  have D: "\<exists>p' m' plan. pumi_ghost_createLayer 2 0 (pumi_new, emptyPMesh) [] 0 3 2 1
          = Some (Planning (p', m') [] ''ghost_check_mark'' plan) \<and> ghost_dim plan = 3"
    using pumi_ghost_createLayer_checks [of 2 2 0 "(pumi_new, emptyPMesh)" "[]" 0 3 1]
    by (simp add: emptyPMesh_fields)
  show ?thesis using A B C D by blast
qed

text \<open>
  Claim C9 as stated fails. On rank 0 of two processes, a layer count of 0 (with a bridge
  dimension above the ghost dimension as well) makes the function return without any
  report. And \<^verbatim>\<open>include_copy = 7\<close> is not rejected: with valid dimensions and one layer
  the function creates its tag and its plan on the mesh.
\<close>

theorem pumi_ghost_createLayer_counterexample:
  "pumi_ghost_createLayer 2 0 (pumi_new, emptyPMesh) [] 5 1 0 0
     = Some (Returned (pumi_new, emptyPMesh) [])
   \<and> (\<exists>p' m' plan. pumi_ghost_createLayer 2 0 (pumi_new, emptyPMesh) [] 0 3 1 7
          = Some (Planning (p', m') [] ''ghost_check_mark'' plan)
        \<and> findTag emptyPMesh ''ghost_check_mark'' = None
        \<and> findTag m' ''ghost_check_mark'' = Some ''ghost_check_mark''
        \<and> findTag m' ''_parts_index_'' = Some ''_parts_index_'')"
  by (simp add: pumi_ghost_createLayer_def Let_def createIntTag_def Ghosting_new_def findTag_def
        emptyPMesh_def pumi_new_def)

text \<open>
  Claim C10. The constructor of the instance leaves \<^verbatim>\<open>ghosted_tag\<close> null, and
  \<^verbatim>\<open>pumi_ghost_delete\<close> on an instance whose \<^verbatim>\<open>ghosted_tag\<close> is null stops at its
  assertion, for every mesh. The pointer stays as it is when
  \<^verbatim>\<open>pumi_ghost_createLayer\<close> returns early, it is null after a \<^verbatim>\<open>pumi_ghost_delete\<close> that
  returns, and the constructor of \<^verbatim>\<open>Ghosting\<close> sets it exactly when the mesh has no tag
  named \<^verbatim>\<open>ghosted_tag\<close>. So a deletion can pass its assertion only after a \<^verbatim>\<open>Ghosting\<close>
  has been constructed.
\<close>

theorem pumi_ghost_delete_needs_Ghosting:
  "ghosted_tag pumi_new = None \<and>
   pumi_ghost_delete (pumi_new, m) = None \<and>
   (ghosted_tag p = None \<longrightarrow> pumi_ghost_delete (p, m) = None) \<and>
   (pumi_ghost_delete (p, m) = Some (pa, ma) \<longrightarrow> ghosted_tag pa = None) \<and>
   (pumi_ghost_createLayer peers self (p, m) out brg_dim ghost_dim0 num_layer include_copy
      = Some (Returned (pb, mb) out2) \<longrightarrow> ghosted_tag pb = ghosted_tag p) \<and>
   (Ghosting_new (p, m) d = Some (pc, mc, plan) \<longrightarrow>
      ghosted_tag pc = (if findTag m ''ghosted_tag'' = None then Some ''ghosted_tag''
                        else ghosted_tag p))"
proof (intro conjI impI)
  show "ghosted_tag pumi_new = None" by (simp add: pumi_new_def)
  show "pumi_ghost_delete (pumi_new, m) = None"
    by (simp add: pumi_ghost_delete_def pumi_new_def)
  show "pumi_ghost_delete (p, m) = None" if "ghosted_tag p = None"
    using that by (simp add: pumi_ghost_delete_def)
  show "ghosted_tag pa = None" if "pumi_ghost_delete (p, m) = Some (pa, ma)"
    using that by (auto simp: pumi_ghost_delete_def Let_def split: option.splits)
  show "ghosted_tag pb = ghosted_tag p"
    if "pumi_ghost_createLayer peers self (p, m) out brg_dim ghost_dim0 num_layer include_copy
      = Some (Returned (pb, mb) out2)"
    using that
    by (auto simp: pumi_ghost_createLayer_def Let_def split: if_splits option.splits)
  show "ghosted_tag pc = (if findTag m ''ghosted_tag'' = None then Some ''ghosted_tag''
                        else ghosted_tag p)"
    if "Ghosting_new (p, m) d = Some (pc, mc, plan)"
    using that
    by (auto simp: Ghosting_new_def Let_def createIntTag_def findTag_def
             split: if_splits option.splits)
qed

theorem pumi_ghost_delete_needs_Ghosting_witness:
  "ghosted_tag pumi_new = None
   \<and> pumi_ghost_createLayer 1 0 (pumi_new, emptyPMesh) [] 0 3 1 0
       = Some (Returned (pumi_new, emptyPMesh) [])
   \<and> pumi_ghost_delete (pumi_new, emptyPMesh) = None
   \<and> (\<exists>pc mc plan. Ghosting_new (pumi_new, emptyPMesh) 3 = Some (pc, mc, plan)
         \<and> ghosted_tag pc = Some ''ghosted_tag''
         \<and> (\<exists>pa ma. pumi_ghost_delete (pc, mc) = Some (pa, ma) \<and> ghosted_tag pa = None))"
proof -
  note inst = pumi_ghost_delete_needs_Ghosting [where m = emptyPMesh and p = pumi_new]
  have a: "ghosted_tag pumi_new = None" using inst by simp
  have b: "pumi_ghost_createLayer 1 0 (pumi_new, emptyPMesh) [] 0 3 1 0
       = Some (Returned (pumi_new, emptyPMesh) [])"
    by (simp add: pumi_ghost_createLayer_def)
  have c: "pumi_ghost_delete (pumi_new, emptyPMesh) = None" using inst by simp
  obtain pc mc plan where g: "Ghosting_new (pumi_new, emptyPMesh) 3 = Some (pc, mc, plan)"
    and gt: "ghost_tag pc = Some ''ghost_tag''"
    by (simp add: Ghosting_new_def Let_def createIntTag_def findTag_def emptyPMesh_def pumi_new_def)
  have f: "findTag emptyPMesh ''ghosted_tag'' = None" by (simp add: findTag_def emptyPMesh_def)
  from pumi_ghost_delete_needs_Ghosting [where m = emptyPMesh and p = pumi_new and d = 3 and pc = pc and mc = mc and plan = plan] g f
  have d: "ghosted_tag pc = Some ''ghosted_tag''" by simp
  obtain pa ma where e: "pumi_ghost_delete (pc, mc) = Some (pa, ma)"
    using d gt by (auto simp: pumi_ghost_delete_def Let_def)
  from pumi_ghost_delete_needs_Ghosting [where m = mc and p = pc and pa = pa and ma = ma] e
  have h: "ghosted_tag pa = None" by simp
  show ?thesis using a b c g d e h by blast
qed


end
